theory Spec2Isabelle
  imports Complex_Main
begin

section \<open>Data model\<close>

text \<open>
  A manifest is the parsed \<^verbatim>\<open>manifest.json\<close>.  The differ and the orchestrator read
  only its \<^verbatim>\<open>files\<close> key, through \<^verbatim>\<open>manifest.get('files', [])\<close>, so the key may be
  absent: \<open>files m = None\<close>.  A file entry carries the integer identifiers the
  data model gives it; \<^verbatim>\<open>required\<close> is read with a default and may be absent.
\<close>

record file_entry =
  projectID :: int
  fileID :: int
  required :: "bool option"

record manifest =
  files :: "file_entry list option"

text \<open>\<^verbatim>\<open>manifest.get('files', [])\<close>\<close>

definition get_files :: "manifest \<Rightarrow> file_entry list" where
  "get_files m = (case files m of None \<Rightarrow> [] | Some xs \<Rightarrow> xs)"

text \<open>
  A Python \<^verbatim>\<open>dict\<close> keeps its keys in insertion order; assigning to a key that is
  already present replaces the value and leaves the key where it is.
\<close>

type_synonym ('k, 'v) dict = "('k \<times> 'v) list"

fun dict_set :: "'k \<Rightarrow> 'v \<Rightarrow> ('k, 'v) dict \<Rightarrow> ('k, 'v) dict" where
  "dict_set k v [] = [(k, v)]"
| "dict_set k v ((k', v') # d) =
     (if k = k' then (k', v) # d else (k', v') # dict_set k v d)"

definition dict_keys :: "('k, 'v) dict \<Rightarrow> 'k list" where
  "dict_keys d = map fst d"

definition dict_get :: "('k, 'v) dict \<Rightarrow> 'k \<Rightarrow> 'v option" where
  "dict_get d k = map_of d k"

definition dict_mem :: "'k \<Rightarrow> ('k, 'v) dict \<Rightarrow> bool" where
  "dict_mem k d = (k \<in> set (dict_keys d))"

section \<open>Manifest differ\<close>

text \<open>\<^verbatim>\<open>{item['projectID']: item for item in xs}\<close>\<close>

definition files_by_project :: "file_entry list \<Rightarrow> (int, file_entry) dict" where
  "files_by_project xs = fold (\<lambda>item d. dict_set (projectID item) item d) xs []"

record update_entry =
  upd_projectID :: int
  old_fileID :: int
  new_fileID :: int

record diff_result =
  additions :: "file_entry list"
  removals :: "file_entry list"
  updates :: "update_entry list"

text \<open>
  The three results of \<^verbatim>\<open>compare_manifests\<close>.  Iterating \<^verbatim>\<open>for project_id in d\<close> and
  reading \<^verbatim>\<open>d[project_id]\<close> visits the entries of \<open>d\<close> in order; the lookup in the
  other dictionary of the update loop is guarded by \<^verbatim>\<open>project_id in new_files\<close>.
\<close>

definition not_in :: "(int, file_entry) dict \<Rightarrow> (int, file_entry) dict \<Rightarrow> file_entry list" where
  "not_in d other = map snd (filter (\<lambda>(project_id, item). \<not> dict_mem project_id other) d)"

fun update_loop :: "(int, file_entry) dict \<Rightarrow> (int, file_entry) dict \<Rightarrow> update_entry list" where
  "update_loop [] new_files = []"
| "update_loop ((project_id, old_item) # rest) new_files =
     (case dict_get new_files project_id of
        None \<Rightarrow> update_loop rest new_files
      | Some new_item \<Rightarrow>
          if fileID old_item \<noteq> fileID new_item
          then \<lparr>upd_projectID = project_id, old_fileID = fileID old_item,
                new_fileID = fileID new_item\<rparr> # update_loop rest new_files
          else update_loop rest new_files)"

definition compare_manifests :: "manifest \<Rightarrow> manifest \<Rightarrow> diff_result" where
  "compare_manifests old_manifest new_manifest =
     (let old_files = files_by_project (get_files old_manifest);
          new_files = files_by_project (get_files new_manifest)
      in \<lparr>additions = not_in new_files old_files,
          removals = not_in old_files new_files,
          updates = update_loop old_files new_files\<rparr>)"

text \<open>
  The last entry of a list of file entries that carries a given project identifier:
  the notion the specification calls the last occurrence.
\<close>

definition last_entry :: "file_entry list \<Rightarrow> int \<Rightarrow> file_entry option" where
  "last_entry xs p = find (\<lambda>e. projectID e = p) (rev xs)"

section \<open>Enrichment: records, cache and the outside world\<close>

text \<open>
  The enrichment code talks to two things outside the program: the catalog website
  (\<^verbatim>\<open>requests.get\<close> and the extraction of a title from the page it returns) and the
  cache directory on disk.  Both are parameters of the model.  Every call that can
  raise returns a sum, \<open>Inl\<close> carrying the exception; the exception's own message
  text is not modelled.  That includes the read of a cache file, which raises when
  the file is not valid UTF-8.
\<close>

text \<open>
  \<^verbatim>\<open>f"{project_id}"\<close> for an integer: its decimal digits, with a minus sign when it
  is negative.
\<close>

definition digit_char :: "nat \<Rightarrow> char" where
  "digit_char d =
     (if d = 0 then CHR ''0'' else if d = 1 then CHR ''1'' else if d = 2 then CHR ''2''
      else if d = 3 then CHR ''3'' else if d = 4 then CHR ''4'' else if d = 5 then CHR ''5''
      else if d = 6 then CHR ''6'' else if d = 7 then CHR ''7'' else if d = 8 then CHR ''8''
      else CHR ''9'')"

function str_nat :: "nat \<Rightarrow> string" where
  "str_nat n = (if n < 10 then [digit_char n]
                else str_nat (n div 10) @ [digit_char (n mod 10)])"
  by pat_completeness auto
termination
  by (relation "measure id") auto

declare str_nat.simps [simp del]

definition str_int :: "int \<Rightarrow> string" where
  "str_int i = (if i < 0 then CHR ''-'' # str_nat (nat (- i)) else str_nat (nat i))"

text \<open>
  The two enrichment records: \<^verbatim>\<open>{"id", "name", "url"}\<close> for a project and
  \<^verbatim>\<open>{"id", "fileName", "displayName", "url"}\<close> for a file.
\<close>

record mod_record =
  mod_id :: int
  mod_name :: string
  mod_url :: string

record file_record =
  file_id :: int
  fileName :: string
  displayName :: string
  file_url :: string

text \<open>
  Exceptions.  The fetcher's handler is \<^verbatim>\<open>except (requests.RequestException,
  AttributeError)\<close>; anything else passes through it.  \<^verbatim>\<open>UnicodeDecodeError\<close> is what
  reading a cache file that is not valid UTF-8 raises; the handler of the cache
  read, \<^verbatim>\<open>except (json.JSONDecodeError, OSError)\<close>, does not name it.
\<close>

datatype exn = RequestException | AttributeError | UnicodeDecodeError | OtherException

fun caught :: "exn \<Rightarrow> bool" where
  "caught RequestException = True"
| "caught AttributeError = True"
| "caught UnicodeDecodeError = False"
| "caught OtherException = False"

text \<open>What the fetcher reads of a response: \<^verbatim>\<open>status_code\<close> and \<^verbatim>\<open>text\<close>.\<close>

record response =
  status_code :: int
  resp_text :: string

text \<open>
  The outside world: the outcome of \<^verbatim>\<open>requests.get(url, ...)\<close>; the outcome of parsing
  a page and extracting the title with the selectors of \<^verbatim>\<open>scrape_mod_info\<close>,
  respectively \<^verbatim>\<open>scrape_file_info\<close> (\<open>None\<close> when no selector matches); and whether
  opening a cache file for writing raises \<^verbatim>\<open>OSError\<close>.
\<close>

record world =
  requests_get :: "string \<Rightarrow> exn + response"
  project_title :: "string \<Rightarrow> exn + string option"
  file_title :: "string \<Rightarrow> exn + string option"
  mod_write_fails :: "int \<Rightarrow> bool"
  file_write_fails :: "int \<times> int \<Rightarrow> bool"

text \<open>
  A cache file holds a record, or text that is not JSON (\<^verbatim>\<open>JSONDecodeError\<close>), or
  cannot be opened (\<^verbatim>\<open>OSError\<close>), or bytes that are not valid UTF-8
  (\<^verbatim>\<open>UnicodeDecodeError\<close> when \<^verbatim>\<open>json.load\<close> reads it).  The cache object is the two
  directories of such files and the four counters.
\<close>

datatype 'a cache_file = Stored 'a | Corrupt | Unreadable | Undecodable

record cache =
  mod_files :: "int \<Rightarrow> mod_record cache_file option"
  file_files :: "int \<times> int \<Rightarrow> file_record cache_file option"
  mod_hits :: nat
  mod_misses :: nat
  file_hits :: nat
  file_misses :: nat

text \<open>
  What a run does besides returning: requests sent, lines written to standard
  error, the worker pool created with its width, tasks submitted to it, and pauses
  with their length.  Progress lines on standard output are not recorded.  The
  state threaded through the code is the cache object, \<open>None\<close> when the caller
  passes no cache, and the trace of events so far.
\<close>

datatype event =
    Http_get string
  | Stderr string
  | Pool nat
  | Submit_mod int
  | Submit_file int int
  | Sleep rat

record st =
  cache :: "cache option"
  trace :: "event list"

definition emit :: "event list \<Rightarrow> st \<Rightarrow> st" where
  "emit evs s = s\<lparr>trace := trace s @ evs\<rparr>"

text \<open>
  \<^verbatim>\<open>CurseForgeCache.get_mod_info\<close>.  A hit is counted once the file is open, so a
  file that cannot be decoded counts as a hit.  \<^verbatim>\<open>JSONDecodeError\<close> and \<^verbatim>\<open>OSError\<close>
  are caught, written to standard error and counted as a miss; a
  \<^verbatim>\<open>UnicodeDecodeError\<close> is not caught and leaves the method.
\<close>

definition get_mod_info ::
  "int \<Rightarrow> cache \<Rightarrow> (exn + mod_record option) \<times> cache \<times> event list" where
  "get_mod_info project_id c =
     (case mod_files c project_id of
        None \<Rightarrow> (Inr None, c\<lparr>mod_misses := mod_misses c + 1\<rparr>, [])
      | Some (Stored r) \<Rightarrow> (Inr (Some r), c\<lparr>mod_hits := mod_hits c + 1\<rparr>, [])
      | Some Corrupt \<Rightarrow>
          (Inr None, c\<lparr>mod_hits := mod_hits c + 1, mod_misses := mod_misses c + 1\<rparr>,
           [Stderr (''Error reading cache for mod '' @ str_int project_id)])
      | Some Unreadable \<Rightarrow>
          (Inr None, c\<lparr>mod_misses := mod_misses c + 1\<rparr>,
           [Stderr (''Error reading cache for mod '' @ str_int project_id)])
      | Some Undecodable \<Rightarrow>
          (Inl UnicodeDecodeError, c\<lparr>mod_hits := mod_hits c + 1\<rparr>, []))"

text \<open>
  \<^verbatim>\<open>CurseForgeCache.set_mod_info\<close>: the record replaces the file; a failure to open
  the file is written to standard error and leaves the cache as it was.
\<close>

definition set_mod_info :: "world \<Rightarrow> int \<Rightarrow> mod_record \<Rightarrow> cache \<Rightarrow> cache \<times> event list" where
  "set_mod_info w project_id mod_info c =
     (if mod_write_fails w project_id
      then (c, [Stderr (''Error writing cache for mod '' @ str_int project_id)])
      else (c\<lparr>mod_files := (mod_files c)(project_id \<mapsto> Stored mod_info)\<rparr>, []))"

definition get_file_info ::
  "int \<Rightarrow> int \<Rightarrow> cache \<Rightarrow> (exn + file_record option) \<times> cache \<times> event list" where
  "get_file_info project_id fid c =
     (case file_files c (project_id, fid) of
        None \<Rightarrow> (Inr None, c\<lparr>file_misses := file_misses c + 1\<rparr>, [])
      | Some (Stored r) \<Rightarrow> (Inr (Some r), c\<lparr>file_hits := file_hits c + 1\<rparr>, [])
      | Some Corrupt \<Rightarrow>
          (Inr None, c\<lparr>file_hits := file_hits c + 1, file_misses := file_misses c + 1\<rparr>,
           [Stderr (''Error reading cache for file '' @ str_int fid @ '' of project ''
                    @ str_int project_id)])
      | Some Unreadable \<Rightarrow>
          (Inr None, c\<lparr>file_misses := file_misses c + 1\<rparr>,
           [Stderr (''Error reading cache for file '' @ str_int fid @ '' of project ''
                    @ str_int project_id)])
      | Some Undecodable \<Rightarrow>
          (Inl UnicodeDecodeError, c\<lparr>file_hits := file_hits c + 1\<rparr>, []))"

definition set_file_info ::
  "world \<Rightarrow> int \<Rightarrow> int \<Rightarrow> file_record \<Rightarrow> cache \<Rightarrow> cache \<times> event list" where
  "set_file_info w project_id fid file_info c =
     (if file_write_fails w (project_id, fid)
      then (c, [Stderr (''Error writing cache for file '' @ str_int fid @ '' of project ''
                        @ str_int project_id)])
      else (c\<lparr>file_files := (file_files c)((project_id, fid) \<mapsto> Stored file_info)\<rparr>, []))"

text \<open>
  \<^verbatim>\<open>if cache: cached_info = cache.get_mod_info(project_id)\<close>, as the fetcher and the
  orchestrator both write it: \<open>Inl\<close> when the read raises.
\<close>

definition lookup_mod :: "int \<Rightarrow> st \<Rightarrow> (exn + mod_record option) \<times> st" where
  "lookup_mod project_id s =
     (case cache s of
        None \<Rightarrow> (Inr None, s)
      | Some c \<Rightarrow>
          (case get_mod_info project_id c of
             (r, c', evs) \<Rightarrow> (r, emit evs (s\<lparr>cache := Some c'\<rparr>))))"

text \<open>\<^verbatim>\<open>if cache: cache.set_mod_info(project_id, mod_info)\<close>\<close>

definition store_mod :: "world \<Rightarrow> int \<Rightarrow> mod_record \<Rightarrow> st \<Rightarrow> st" where
  "store_mod w project_id mod_info s =
     (case cache s of
        None \<Rightarrow> s
      | Some c \<Rightarrow>
          (case set_mod_info w project_id mod_info c of
             (c', evs) \<Rightarrow> emit evs (s\<lparr>cache := Some c'\<rparr>)))"

definition lookup_file ::
  "int \<Rightarrow> int \<Rightarrow> st \<Rightarrow> (exn + file_record option) \<times> st" where
  "lookup_file project_id fid s =
     (case cache s of
        None \<Rightarrow> (Inr None, s)
      | Some c \<Rightarrow>
          (case get_file_info project_id fid c of
             (r, c', evs) \<Rightarrow> (r, emit evs (s\<lparr>cache := Some c'\<rparr>))))"

definition store_file :: "world \<Rightarrow> int \<Rightarrow> int \<Rightarrow> file_record \<Rightarrow> st \<Rightarrow> st" where
  "store_file w project_id fid file_info s =
     (case cache s of
        None \<Rightarrow> s
      | Some c \<Rightarrow>
          (case set_file_info w project_id fid file_info c of
             (c', evs) \<Rightarrow> emit evs (s\<lparr>cache := Some c'\<rparr>)))"

section \<open>Enrichment fetcher\<close>

definition mod_urls :: "int \<Rightarrow> string list" where
  "mod_urls project_id =
     [''https://www.curseforge.com/minecraft/mc-mods/'' @ str_int project_id,
      ''https://legacy.curseforge.com/minecraft/mc-mods/p'' @ str_int project_id]"

definition file_urls :: "int \<Rightarrow> int \<Rightarrow> string list" where
  "file_urls project_id fid =
     [''https://www.curseforge.com/minecraft/mc-mods/'' @ str_int project_id
        @ ''/files/'' @ str_int fid,
      ''https://legacy.curseforge.com/minecraft/mc-mods/p'' @ str_int project_id
        @ ''/files/'' @ str_int fid]"

text \<open>
  The loop \<^verbatim>\<open>for url in urls\<close> of \<^verbatim>\<open>scrape_mod_info\<close>.  It returns \<open>Inr (Some r)\<close>
  when a candidate succeeds (the \<^verbatim>\<open>return mod_info\<close> inside the loop), \<open>Inr None\<close>
  when the loop runs to its end, and \<open>Inl e\<close> when an exception leaves it.
\<close>

fun try_mod_urls ::
  "world \<Rightarrow> int \<Rightarrow> string list \<Rightarrow> st \<Rightarrow> (exn + mod_record option) \<times> st" where
  "try_mod_urls w project_id [] s = (Inr None, s)"
| "try_mod_urls w project_id (url # urls) s =
     (let s1 = emit [Http_get url] s in
      case requests_get w url of
        Inl e \<Rightarrow>
          if caught e
          then try_mod_urls w project_id urls
                 (emit [Stderr (''Error with URL '' @ url @ '' for project ''
                                @ str_int project_id)] s1)
          else (Inl e, s1)
      | Inr response \<Rightarrow>
          if status_code response \<noteq> 200 then try_mod_urls w project_id urls s1
          else
            (case project_title w (resp_text response) of
               Inl e \<Rightarrow>
                 if caught e
                 then try_mod_urls w project_id urls
                        (emit [Stderr (''Error with URL '' @ url @ '' for project ''
                                       @ str_int project_id)] s1)
                 else (Inl e, s1)
             | Inr title \<Rightarrow>
                 (let name = (case title of
                                Some t \<Rightarrow> t
                              | None \<Rightarrow> ''Project-'' @ str_int project_id);
                      mod_info = \<lparr>mod_id = project_id, mod_name = name, mod_url = url\<rparr>
                  in (Inr (Some mod_info), store_mod w project_id mod_info s1))))"

text \<open>
  \<^verbatim>\<open>scrape_mod_info\<close>.  The cache read comes before the \<^verbatim>\<open>try\<close>, so an exception
  of the read leaves the function.  A record is a dictionary with three keys,
  hence true in \<^verbatim>\<open>if cached_info:\<close>.
\<close>

definition scrape_mod_info :: "world \<Rightarrow> int \<Rightarrow> st \<Rightarrow> (exn + mod_record) \<times> st" where
  "scrape_mod_info w project_id s =
     (case lookup_mod project_id s of
        (Inl e, s1) \<Rightarrow> (Inl e, s1)
      | (Inr (Some cached_info), s1) \<Rightarrow> (Inr cached_info, s1)
      | (Inr None, s1) \<Rightarrow>
          (case try_mod_urls w project_id (mod_urls project_id) s1 of
             (Inl e, s2) \<Rightarrow> (Inl e, s2)
           | (Inr (Some mod_info), s2) \<Rightarrow> (Inr mod_info, s2)
           | (Inr None, s2) \<Rightarrow>
               (let s3 = emit [Stderr (''Failed to scrape info for project ''
                                       @ str_int project_id)] s2;
                    minimal_info =
                      \<lparr>mod_id = project_id,
                       mod_name = ''Project-'' @ str_int project_id,
                       mod_url = ''https://www.curseforge.com/minecraft/mc-mods/''
                                 @ str_int project_id\<rparr>
                in (Inr minimal_info, store_mod w project_id minimal_info s3))))"

text \<open>The same loop in \<^verbatim>\<open>scrape_file_info\<close>.\<close>

fun try_file_urls ::
  "world \<Rightarrow> int \<Rightarrow> int \<Rightarrow> string list \<Rightarrow> st \<Rightarrow> (exn + file_record option) \<times> st" where
  "try_file_urls w project_id fid [] s = (Inr None, s)"
| "try_file_urls w project_id fid (url # urls) s =
     (let s1 = emit [Http_get url] s in
      case requests_get w url of
        Inl e \<Rightarrow>
          if caught e
          then try_file_urls w project_id fid urls
                 (emit [Stderr (''Error with URL '' @ url @ '' for file '' @ str_int fid
                                @ '' of project '' @ str_int project_id)] s1)
          else (Inl e, s1)
      | Inr response \<Rightarrow>
          if status_code response \<noteq> 200 then try_file_urls w project_id fid urls s1
          else
            (case file_title w (resp_text response) of
               Inl e \<Rightarrow>
                 if caught e
                 then try_file_urls w project_id fid urls
                        (emit [Stderr (''Error with URL '' @ url @ '' for file ''
                                       @ str_int fid @ '' of project ''
                                       @ str_int project_id)] s1)
                 else (Inl e, s1)
             | Inr title \<Rightarrow>
                 (let file_name = (case title of
                                     Some t \<Rightarrow> t
                                   | None \<Rightarrow> ''File-'' @ str_int fid);
                      file_info = \<lparr>file_id = fid, fileName = file_name,
                                   displayName = file_name, file_url = url\<rparr>
                  in (Inr (Some file_info), store_file w project_id fid file_info s1))))"

definition scrape_file_info ::
  "world \<Rightarrow> int \<Rightarrow> int \<Rightarrow> st \<Rightarrow> (exn + file_record) \<times> st" where
  "scrape_file_info w project_id fid s =
     (case lookup_file project_id fid s of
        (Inl e, s1) \<Rightarrow> (Inl e, s1)
      | (Inr (Some cached_info), s1) \<Rightarrow> (Inr cached_info, s1)
      | (Inr None, s1) \<Rightarrow>
          (case try_file_urls w project_id fid (file_urls project_id fid) s1 of
             (Inl e, s2) \<Rightarrow> (Inl e, s2)
           | (Inr (Some file_info), s2) \<Rightarrow> (Inr file_info, s2)
           | (Inr None, s2) \<Rightarrow>
               (let s3 = emit [Stderr (''Failed to scrape info for file '' @ str_int fid
                                       @ '' of project '' @ str_int project_id)] s2;
                    minimal_info =
                      \<lparr>file_id = fid,
                       fileName = ''File-'' @ str_int fid,
                       displayName = ''File-'' @ str_int fid,
                       file_url = ''https://www.curseforge.com/minecraft/mc-mods/''
                                  @ str_int project_id @ ''/files/'' @ str_int fid\<rparr>
                in (Inr minimal_info, store_file w project_id fid minimal_info s3))))"

section \<open>Bulk enrichment orchestrator\<close>

text \<open>
  \<^verbatim>\<open>list(set(xs))\<close>: each element once.  Python leaves the order open; the model
  fixes one, and no statement below depends on which.
\<close>

definition list_of_set :: "'a list \<Rightarrow> 'a list" where
  "list_of_set xs = remdups xs"

text \<open>
  The loop \<^verbatim>\<open>for pid in project_ids[:]\<close> of \<^verbatim>\<open>scrape_all_mod_info\<close>: it runs over a
  copy of the list and removes the keys the cache answers from the list itself.
  The loop is in no \<^verbatim>\<open>try\<close>: a read that raises ends the loop and the function.
\<close>

fun check_mod_cache ::
  "int list \<Rightarrow> (int, mod_record) dict \<times> int list \<times> st \<Rightarrow>
   (exn + (int, mod_record) dict \<times> int list) \<times> st" where
  "check_mod_cache [] (mod_info, project_ids, s) = (Inr (mod_info, project_ids), s)"
| "check_mod_cache (pid # rest) (mod_info, project_ids, s) =
     (case lookup_mod pid s of
        (Inl e, s1) \<Rightarrow> (Inl e, s1)
      | (Inr (Some cached_info), s1) \<Rightarrow>
          check_mod_cache rest (dict_set pid cached_info mod_info, remove1 pid project_ids, s1)
      | (Inr None, s1) \<Rightarrow> check_mod_cache rest (mod_info, project_ids, s1))"

text \<open>
  The loop \<^verbatim>\<open>for future in futures\<close>.  The pool runs the submitted tasks in
  parallel; the model runs each task when its result is awaited, in submission
  order.  A task reads and writes only the cache file of its own key, and the
  results are collected in submission order in both.  \<^verbatim>\<open>if result:\<close> holds for
  every record.  The pause is \<^verbatim>\<open>time.sleep(0.5)\<close>, inside the \<^verbatim>\<open>try\<close> and after the
  result, so a task that raises is not followed by a pause.
\<close>

fun collect_mods ::
  "world \<Rightarrow> int list \<Rightarrow> (int, mod_record) dict \<times> st \<Rightarrow> (int, mod_record) dict \<times> st" where
  "collect_mods w [] acc = acc"
| "collect_mods w (pid # rest) (mod_info, s) =
     (case scrape_mod_info w pid s of
        (Inr result, s1) \<Rightarrow>
          collect_mods w rest (dict_set pid result mod_info, emit [Sleep (1 / 2)] s1)
      | (Inl e, s1) \<Rightarrow>
          collect_mods w rest
            (mod_info, emit [Stderr (''Error processing project '' @ str_int pid)] s1))"

text \<open>\<^verbatim>\<open>scrape_all_mod_info\<close>, with \<^verbatim>\<open>ThreadPoolExecutor(max_workers=3)\<close>.\<close>

definition scrape_all_mod_info ::
  "world \<Rightarrow> manifest \<Rightarrow> st \<Rightarrow> (exn + (int, mod_record) dict) \<times> st" where
  "scrape_all_mod_info w manifest s =
     (let project_ids = list_of_set (map projectID (get_files manifest)) in
      case (if cache s \<noteq> None then check_mod_cache project_ids ([], project_ids, s)
            else (Inr ([], project_ids), s)) of
        (Inl e, s1) \<Rightarrow> (Inl e, s1)
      | (Inr (mod_info, project_ids), s1) \<Rightarrow>
          if project_ids \<noteq> []
          then (case collect_mods w project_ids
                       (mod_info, emit (Pool 3 # map Submit_mod project_ids) s1) of
                  (mod_info, s2) \<Rightarrow> (Inr mod_info, s2))
          else (Inr mod_info, s1))"

text \<open>\<^verbatim>\<open>scrape_all_file_info\<close>, the same orchestration keyed by project and file.\<close>

fun check_file_cache ::
  "(int \<times> int) list \<Rightarrow> (int \<times> int, file_record) dict \<times> (int \<times> int) list \<times> st \<Rightarrow>
   (exn + (int \<times> int, file_record) dict \<times> (int \<times> int) list) \<times> st" where
  "check_file_cache [] (file_info, file_keys, s) = (Inr (file_info, file_keys), s)"
| "check_file_cache ((pid, fid) # rest) (file_info, file_keys, s) =
     (case lookup_file pid fid s of
        (Inl e, s1) \<Rightarrow> (Inl e, s1)
      | (Inr (Some cached_info), s1) \<Rightarrow>
          check_file_cache rest
            (dict_set (pid, fid) cached_info file_info, remove1 (pid, fid) file_keys, s1)
      | (Inr None, s1) \<Rightarrow> check_file_cache rest (file_info, file_keys, s1))"

fun collect_files ::
  "world \<Rightarrow> (int \<times> int) list \<Rightarrow> (int \<times> int, file_record) dict \<times> st \<Rightarrow>
   (int \<times> int, file_record) dict \<times> st" where
  "collect_files w [] acc = acc"
| "collect_files w ((pid, fid) # rest) (file_info, s) =
     (case scrape_file_info w pid fid s of
        (Inr result, s1) \<Rightarrow>
          collect_files w rest (dict_set (pid, fid) result file_info, emit [Sleep (1 / 2)] s1)
      | (Inl e, s1) \<Rightarrow>
          collect_files w rest
            (file_info,
             emit [Stderr (''Error processing file '' @ str_int fid @ '' of project ''
                           @ str_int pid)] s1))"

definition scrape_all_file_info ::
  "world \<Rightarrow> manifest \<Rightarrow> st \<Rightarrow> (exn + (int \<times> int, file_record) dict) \<times> st" where
  "scrape_all_file_info w manifest s =
     (let file_keys =
            list_of_set (map (\<lambda>item. (projectID item, fileID item)) (get_files manifest)) in
      case (if cache s \<noteq> None then check_file_cache file_keys ([], file_keys, s)
            else (Inr ([], file_keys), s)) of
        (Inl e, s1) \<Rightarrow> (Inl e, s1)
      | (Inr (file_info, file_keys), s1) \<Rightarrow>
          if file_keys \<noteq> []
          then (case collect_files w file_keys
                       (file_info,
                        emit (Pool 3 # map (\<lambda>(pid, fid). Submit_file pid fid) file_keys) s1) of
                  (file_info, s2) \<Rightarrow> (Inr file_info, s2))
          else (Inr file_info, s1))"

text \<open>
  The options of the command line that the enrichment reads or declares:
  \<^verbatim>\<open>--scrape\<close>, \<^verbatim>\<open>--no-scrape-files\<close>, \<^verbatim>\<open>--delay\<close> (default 0.5),
  \<^verbatim>\<open>--max-workers\<close> (default 3), \<^verbatim>\<open>--cache-dir\<close> and \<^verbatim>\<open>--no-cache\<close>.
\<close>

record args =
  scrape :: bool
  no_scrape_files :: bool
  delay :: rat
  max_workers :: int
  cache_dir :: string
  no_cache :: bool

text \<open>
  \<^verbatim>\<open>CurseForgeCache(args.cache_dir)\<close>: the files found in the directory, and
  counters at zero.
\<close>

definition CurseForgeCache :: "cache \<Rightarrow> cache" where
  "CurseForgeCache dir =
     dir\<lparr>mod_hits := 0, mod_misses := 0, file_hits := 0, file_misses := 0\<rparr>"

text \<open>
  The combined manifest \<^verbatim>\<open>main\<close> builds for the file lookups: the entries of the old
  manifest, then the entries of the new one whose project and file are not there
  yet, each reduced to its two identifiers.
\<close>

fun add_new_files :: "file_entry list \<Rightarrow> file_entry list \<Rightarrow> file_entry list" where
  "add_new_files [] all_files = all_files"
| "add_new_files (item # rest) all_files =
     add_new_files rest
       (if \<not> list_ex (\<lambda>f. projectID f = projectID item \<and> fileID f = fileID item) all_files
        then all_files @ [\<lparr>projectID = projectID item, fileID = fileID item, required = None\<rparr>]
        else all_files)"

definition combined_manifest :: "manifest \<Rightarrow> manifest \<Rightarrow> manifest" where
  "combined_manifest old_manifest new_manifest =
     \<lparr>files = Some (add_new_files (get_files new_manifest)
        (map (\<lambda>item. \<lparr>projectID = projectID item, fileID = fileID item, required = None\<rparr>)
           (get_files old_manifest)))\<rparr>"

text \<open>
  \<^verbatim>\<open>main\<close>, from the parsed options and the two extracted manifests to the values
  handed to the report generator.  An exception of the enrichment reaches the
  \<^verbatim>\<open>except Exception\<close> of \<^verbatim>\<open>main\<close>, which writes an error line and exits.
  Extraction of the archives, the report and the cache statistics printed at the
  end are left out.
\<close>

definition main ::
  "world \<Rightarrow> args \<Rightarrow> manifest \<Rightarrow> manifest \<Rightarrow> cache \<Rightarrow>
   (exn + diff_result \<times> (int, mod_record) dict \<times> (int, mod_record) dict \<times>
      (int \<times> int, file_record) dict) \<times> st" where
  "main w args old_manifest new_manifest dir =
     (let s0 = \<lparr>cache = None, trace = []\<rparr> in
      if scrape args then
        (let s1 = s0\<lparr>cache := (if \<not> no_cache args then Some (CurseForgeCache dir) else None)\<rparr> in
         case scrape_all_mod_info w old_manifest s1 of
           (Inl e, s2) \<Rightarrow> (Inl e, emit [Stderr ''Error: ''] s2)
         | (Inr old_mod_info, s2) \<Rightarrow>
             (case (if set (map projectID (get_files old_manifest))
                        \<noteq> set (map projectID (get_files new_manifest))
                    then scrape_all_mod_info w new_manifest s2
                    else (Inr old_mod_info, s2)) of
                (Inl e, s3) \<Rightarrow> (Inl e, emit [Stderr ''Error: ''] s3)
              | (Inr new_mod_info, s3) \<Rightarrow>
                  (case (if \<not> no_scrape_files args
                         then scrape_all_file_info w
                                (combined_manifest old_manifest new_manifest) s3
                         else (Inr [], s3)) of
                     (Inl e, s4) \<Rightarrow> (Inl e, emit [Stderr ''Error: ''] s4)
                   | (Inr file_info, s4) \<Rightarrow>
                       (Inr (compare_manifests old_manifest new_manifest,
                             old_mod_info, new_mod_info, file_info), s4))))
      else (Inr (compare_manifests old_manifest new_manifest, [], [], []), s0))"

section \<open>Observations on a run\<close>

text \<open>
  The definitions below are not part of the program.  They name what the claims
  speak about: what the cache holds for a key, what a key's fetch returns, which
  events a run added to the trace, and the concrete inputs used to instantiate
  the theorems.
\<close>

text \<open>The record the cache holds for a project, if it holds one.\<close>

definition cached_mod :: "st \<Rightarrow> int \<Rightarrow> mod_record option" where
  "cached_mod s project_id =
     (case cache s of
        None \<Rightarrow> None
      | Some c \<Rightarrow> (case mod_files c project_id of Some (Stored r) \<Rightarrow> Some r | _ \<Rightarrow> None))"

text \<open>
  The read of a project's cache file raises: there is a cache and the file is not
  valid UTF-8.
\<close>

definition read_raises :: "st \<Rightarrow> int \<Rightarrow> bool" where
  "read_raises s project_id =
     (case cache s of
        None \<Rightarrow> False
      | Some c \<Rightarrow> mod_files c project_id = Some Undecodable)"

text \<open>
  The outcome of fetching a project on its own, with no cache to consult.  By
  \<open>scrape_mod_info_result\<close> below this is the outcome of every fetch of that project
  from a state whose cache holds no record for it and can be read.
\<close>

definition uncached :: st where
  "uncached = \<lparr>cache = None, trace = []\<rparr>"

definition fetch_alone :: "world \<Rightarrow> int \<Rightarrow> exn + mod_record" where
  "fetch_alone w project_id = fst (scrape_mod_info w project_id uncached)"

text \<open>The events a run added, and the parts of them the claims speak about.\<close>

definition new_events :: "st \<Rightarrow> st \<Rightarrow> event list" where
  "new_events s s' = drop (length (trace s)) (trace s')"

fun submitted :: "event list \<Rightarrow> int list" where
  "submitted [] = []"
| "submitted (Submit_mod pid # evs) = pid # submitted evs"
| "submitted (_ # evs) = submitted evs"

fun http_gets :: "event list \<Rightarrow> string list" where
  "http_gets [] = []"
| "http_gets (Http_get url # evs) = url # http_gets evs"
| "http_gets (_ # evs) = http_gets evs"

fun pools :: "event list \<Rightarrow> nat list" where
  "pools [] = []"
| "pools (Pool n # evs) = n # pools evs"
| "pools (_ # evs) = pools evs"

fun sleeps :: "event list \<Rightarrow> rat list" where
  "sleeps [] = []"
| "sleeps (Sleep d # evs) = d # sleeps evs"
| "sleeps (_ # evs) = sleeps evs"

text \<open>
  What the cache holds for a key after a fetch has stored the record \<open>r\<close> under
  it: \<open>r\<close> when there is a cache and the write succeeds.
\<close>

definition stored_as :: "world \<Rightarrow> st \<Rightarrow> int \<Rightarrow> mod_record \<Rightarrow> mod_record option" where
  "stored_as w s project_id r =
     (if cache s \<noteq> None \<and> \<not> mod_write_fails w project_id then Some r
      else cached_mod s project_id)"

text \<open>
  The keys the cache answers, with their records; the keys it does not answer;
  and the records fetched for a list of keys, leaving out the keys whose fetch
  raises.
\<close>

definition hits :: "st \<Rightarrow> int list \<Rightarrow> (int, mod_record) dict" where
  "hits s ids = concat (map (\<lambda>p. case cached_mod s p of Some r \<Rightarrow> [(p, r)] | None \<Rightarrow> []) ids)"

definition misses :: "st \<Rightarrow> int list \<Rightarrow> int list" where
  "misses s ids = filter (\<lambda>p. cached_mod s p = None) ids"

definition fetched :: "world \<Rightarrow> int list \<Rightarrow> (int, mod_record) dict" where
  "fetched w ids =
     concat (map (\<lambda>p. case fetch_alone w p of Inr r \<Rightarrow> [(p, r)] | Inl e \<Rightarrow> []) ids)"

text \<open>The deduplicated keys of a manifest.\<close>

definition project_ids_of :: "manifest \<Rightarrow> int list" where
  "project_ids_of m = list_of_set (map projectID (get_files m))"


text \<open>What a key resolves to: the cached record, or else the record its fetch returns.\<close>

definition resolves_to :: "world \<Rightarrow> st \<Rightarrow> int \<Rightarrow> mod_record option" where
  "resolves_to w s p =
     (case cached_mod s p of
        Some r \<Rightarrow> Some r
      | None \<Rightarrow> (case fetch_alone w p of Inr r \<Rightarrow> Some r | Inl e \<Rightarrow> None))"

text \<open>Concrete inputs: an empty cache, worlds and manifests.\<close>

definition empty_cache :: cache where
  "empty_cache = \<lparr>mod_files = (\<lambda>p. None), file_files = (\<lambda>k. None),
                   mod_hits = 0, mod_misses = 0, file_hits = 0, file_misses = 0\<rparr>"

definition fresh :: st where
  "fresh = \<lparr>cache = Some empty_cache, trace = []\<rparr>"

text \<open>A world in which every request is a transport error.\<close>

definition world_offline :: world where
  "world_offline =
     \<lparr>requests_get = (\<lambda>url. Inl RequestException),
      project_title = (\<lambda>t. Inr None), file_title = (\<lambda>t. Inr None),
      mod_write_fails = (\<lambda>p. False), file_write_fails = (\<lambda>k. False)\<rparr>"

text \<open>The placeholder record of \<^verbatim>\<open>scrape_mod_info\<close>.\<close>

definition placeholder :: "int \<Rightarrow> mod_record" where
  "placeholder p = \<lparr>mod_id = p, mod_name = ''Project-'' @ str_int p,
                     mod_url = ''https://www.curseforge.com/minecraft/mc-mods/'' @ str_int p\<rparr>"

text \<open>
  A candidate URL fails when the request raises a transport error or answers with a
  status other than 200.
\<close>

definition candidate_fails :: "world \<Rightarrow> string \<Rightarrow> bool" where
  "candidate_fails w url =
     (case requests_get w url of
        Inl e \<Rightarrow> e = RequestException
      | Inr response \<Rightarrow> status_code response \<noteq> 200)"

definition entry :: "int \<Rightarrow> int \<Rightarrow> file_entry" where
  "entry p f = \<lparr>projectID = p, fileID = f, required = None\<rparr>"

definition manifest_121 :: manifest where
  "manifest_121 = \<lparr>files = Some [entry 1 10, entry 2 20, entry 1 11]\<rparr>"

definition manifest_123 :: manifest where
  "manifest_123 = \<lparr>files = Some [entry 1 10, entry 2 20, entry 3 30]\<rparr>"

definition manifest_1 :: manifest where
  "manifest_1 = \<lparr>files = Some [entry 1 10]\<rparr>"

text \<open>A world in which every request for project 2 raises an exception that the fetcher
  does not catch, and every other request is a transport error.\<close>

definition world_two_raises :: world where
  "world_two_raises =
     \<lparr>requests_get = (\<lambda>url. if url \<in> set (mod_urls 2) then Inl OtherException
                             else Inl RequestException),
      project_title = (\<lambda>t. Inr None), file_title = (\<lambda>t. Inr None),
      mod_write_fails = (\<lambda>p. False), file_write_fails = (\<lambda>k. False)\<rparr>"

text \<open>A world whose cache directory cannot be written.\<close>

definition world_read_only :: world where
  "world_read_only =
     \<lparr>requests_get = (\<lambda>url. Inl RequestException),
      project_title = (\<lambda>t. Inr None), file_title = (\<lambda>t. Inr None),
      mod_write_fails = (\<lambda>p. True), file_write_fails = (\<lambda>k. True)\<rparr>"



text \<open>
  The options \<^verbatim>\<open>--scrape --no-scrape-files --no-cache --delay 2 --max-workers 8\<close>.
\<close>

definition args_custom :: args where
  "args_custom = \<lparr>scrape = True, no_scrape_files = True, delay = 2, max_workers = 8,
                   cache_dir = ''.cursecache'', no_cache = True\<rparr>"

text \<open>A cache whose file for project 1 is not valid UTF-8.\<close>

definition garbled :: st where
  "garbled = \<lparr>cache = Some (empty_cache\<lparr>mod_files := (\<lambda>p. if p = 1 then Some Undecodable else None)\<rparr>),
              trace = []\<rparr>"

section \<open>Properties of the differ\<close>

lemma dict_set_keys:
  "set (dict_keys (dict_set k v d)) = insert k (set (dict_keys d))"
  by (induction d) (force simp: dict_keys_def)+

lemma dict_set_distinct:
  "distinct (dict_keys d) \<Longrightarrow> distinct (dict_keys (dict_set k v d))"
proof (induction d)
  case Nil
  then show ?case by (simp add: dict_keys_def)
next
  case (Cons p d)
  obtain k' v' where p: "p = (k', v')" by (cases p)
  from Cons have "distinct (dict_keys (dict_set k v d))" by (simp add: dict_keys_def)
  moreover have "k' \<notin> set (dict_keys d)" using Cons.prems p by (simp add: dict_keys_def)
  ultimately show ?case
    using Cons.prems p dict_set_keys [of k v d] by (auto simp: dict_keys_def)
qed

lemma dict_set_get:
  "dict_get (dict_set k v d) k' = (if k' = k then Some v else dict_get d k')"
  by (induction d) (auto simp: dict_get_def)

lemma dict_get_None: "dict_get d k = None \<longleftrightarrow> \<not> dict_mem k d"
  by (simp add: dict_get_def dict_mem_def dict_keys_def map_of_eq_None_iff)

lemma dict_get_distinct:
  "distinct (dict_keys d) \<Longrightarrow> dict_get d k = Some v \<longleftrightarrow> (k, v) \<in> set d"
  by (simp add: dict_get_def dict_keys_def)

lemma fold_dict_set_distinct:
  "distinct (dict_keys d) \<Longrightarrow>
   distinct (dict_keys (fold (\<lambda>item d. dict_set (projectID item) item d) xs d))"
  by (induction xs arbitrary: d) (simp_all add: dict_set_distinct)

lemma find_app:
  "find P (xs @ ys) = (case find P xs of None \<Rightarrow> find P ys | Some x \<Rightarrow> Some x)"
  by (induction xs) simp_all

lemma fold_dict_set_get:
  "dict_get (fold (\<lambda>item d. dict_set (projectID item) item d) xs d) p =
     (case last_entry xs p of Some e \<Rightarrow> Some e | None \<Rightarrow> dict_get d p)"
proof (induction xs arbitrary: d)
  case Nil
  then show ?case by (simp add: last_entry_def)
next
  case (Cons x xs)
  show ?case
    by (simp add: Cons.IH last_entry_def dict_set_get find_app split: option.split)
qed

lemma files_by_project_distinct: "distinct (dict_keys (files_by_project xs))"
  using fold_dict_set_distinct [of "[]" xs] by (simp add: files_by_project_def dict_keys_def)

lemma files_by_project_get: "dict_get (files_by_project xs) p = last_entry xs p"
  using fold_dict_set_get [of xs "[]" p]
  by (simp add: files_by_project_def dict_get_def split: option.split)

lemma files_by_project_mem:
  "(p, e) \<in> set (files_by_project xs) \<longleftrightarrow> last_entry xs p = Some e"
  using dict_get_distinct [OF files_by_project_distinct, of xs p e]
  by (simp add: files_by_project_get)

lemma files_by_project_dict_mem:
  "dict_mem p (files_by_project xs) \<longleftrightarrow> last_entry xs p \<noteq> None"
  using dict_get_None [of "files_by_project xs" p] by (simp add: files_by_project_get)

lemma last_entry_None: "last_entry xs p = None \<longleftrightarrow> p \<notin> projectID ` set xs"
  by (auto simp: last_entry_def find_None_iff)

lemma last_entry_Some: "last_entry xs p = Some e \<Longrightarrow> e \<in> set xs \<and> projectID e = p"
  by (auto simp: last_entry_def find_Some_iff) (metis nth_mem set_rev length_rev)

lemma set_not_in:
  "set (not_in (files_by_project xs) (files_by_project ys)) =
     {e. \<exists>p. last_entry xs p = Some e \<and> last_entry ys p = None}"
  by (auto simp: not_in_def files_by_project_mem files_by_project_dict_mem image_iff)

lemma set_update_loop:
  "set (update_loop d (files_by_project ys)) =
     {u. \<exists>eo en. (upd_projectID u, eo) \<in> set d \<and> last_entry ys (upd_projectID u) = Some en \<and>
           fileID eo \<noteq> fileID en \<and> old_fileID u = fileID eo \<and> new_fileID u = fileID en}"
proof (induction d)
  case Nil
  then show ?case by simp
next
  case (Cons a d)
  obtain p eo where a: "a = (p, eo)" by (cases a)
  show ?case
    unfolding a
    by (cases "last_entry ys p") (auto simp: Cons.IH files_by_project_get)
qed

lemma dict_set_fresh: "k \<notin> set (dict_keys d) \<Longrightarrow> dict_set k v d = d @ [(k, v)]"
  by (induction d) (auto simp: dict_keys_def)

lemma fold_dict_set_fresh:
  "distinct (map projectID xs) \<Longrightarrow> projectID ` set xs \<inter> set (dict_keys d) = {} \<Longrightarrow>
   fold (\<lambda>item d. dict_set (projectID item) item d) xs d = d @ map (\<lambda>e. (projectID e, e)) xs"
proof (induction xs arbitrary: d)
  case Nil
  then show ?case by simp
next
  case (Cons x xs)
  have fresh: "projectID x \<notin> set (dict_keys d)" using Cons.prems(2) by auto
  have step: "dict_set (projectID x) x d = d @ [(projectID x, x)]"
    by (rule dict_set_fresh [OF fresh])
  have "projectID ` set xs \<inter> set (dict_keys (d @ [(projectID x, x)])) = {}"
    using Cons.prems by (auto simp: dict_keys_def)
  with Cons.IH [of "d @ [(projectID x, x)]"] Cons.prems(1) step show ?case by simp
qed

lemma files_by_project_unique:
  "distinct (map projectID xs) \<Longrightarrow> map snd (files_by_project xs) = xs"
  using fold_dict_set_fresh [of xs "[]"]
  by (simp add: files_by_project_def dict_keys_def comp_def)

lemma not_in_self: "not_in d d = []"
  by (auto simp: not_in_def dict_mem_def dict_keys_def filter_empty_conv image_iff)

lemma not_in_empty: "not_in d [] = map snd d" and empty_not_in: "not_in [] d = []"
  by (simp_all add: not_in_def dict_mem_def dict_keys_def)

lemma update_loop_empty: "update_loop d [] = []"
  by (induction d) (auto simp: dict_get_def)

lemma update_loop_same:
  "(\<And>p e. (p, e) \<in> set d \<Longrightarrow> dict_get d' p = Some e) \<Longrightarrow> update_loop d d' = []"
proof (induction d)
  case Nil
  then show ?case by simp
next
  case (Cons a d)
  obtain p e where a: "a = (p, e)" by (cases a)
  have "dict_get d' p = Some e" using Cons.prems [of p e] a by simp
  moreover have "update_loop d d' = []" using Cons.IH Cons.prems by simp
  ultimately show ?case using a by simp
qed

lemma update_loop_self: "distinct (dict_keys d) \<Longrightarrow> update_loop d d = []"
  by (rule update_loop_same) (simp add: dict_get_distinct)

lemma compare_manifests_self:
  "compare_manifests A A = \<lparr>additions = [], removals = [], updates = []\<rparr>"
  by (simp add: compare_manifests_def Let_def not_in_self update_loop_self
      files_by_project_distinct)

lemma files_by_project_Nil: "files_by_project [] = []"
  by (simp add: files_by_project_def)

subsection \<open>The claims about the differ\<close>

text \<open>
  C1.  The end-to-end example: the old manifest lists projects 1 (file 10) and 2
  (file 20), the new one projects 2 (file 21) and 3 (file 30).  The diff returns
  the entry of project 3 as the only addition, the entry of project 1 as the only
  removal, and one update of project 2 from file 20 to file 21.
\<close>

theorem C1_end_to_end_example:
  "compare_manifests
     \<lparr>files = Some [\<lparr>projectID = 1, fileID = 10, required = None\<rparr>,
                    \<lparr>projectID = 2, fileID = 20, required = None\<rparr>]\<rparr>
     \<lparr>files = Some [\<lparr>projectID = 2, fileID = 21, required = None\<rparr>,
                    \<lparr>projectID = 3, fileID = 30, required = None\<rparr>]\<rparr>
   = \<lparr>additions = [\<lparr>projectID = 3, fileID = 30, required = None\<rparr>],
      removals = [\<lparr>projectID = 1, fileID = 10, required = None\<rparr>],
      updates = [\<lparr>upd_projectID = 2, old_fileID = 20, new_fileID = 21\<rparr>]\<rparr>"
  by (simp add: compare_manifests_def get_files_def files_by_project_def not_in_def
      dict_mem_def dict_keys_def dict_get_def)

text \<open>
  C2.  The lookup map the differ builds from a list of file entries maps each
  project identifier to the last entry of the list that carries it, also when
  several entries carry it.  Hence an entry is an addition exactly when it is the
  last entry of its project in the new manifest and the old manifest has no entry
  of that project; symmetrically for removals; and an update of a project records
  the file identifiers of the last entries of that project in the old and in the
  new manifest, and exists exactly when those two differ.
\<close>

theorem C2_last_occurrence_wins:
  "dict_get (files_by_project xs) p = last_entry xs p \<and>
   set (additions (compare_manifests A B)) =
     {e. \<exists>p. last_entry (get_files B) p = Some e \<and> last_entry (get_files A) p = None} \<and>
   set (removals (compare_manifests A B)) =
     {e. \<exists>p. last_entry (get_files A) p = Some e \<and> last_entry (get_files B) p = None} \<and>
   set (updates (compare_manifests A B)) =
     {u. \<exists>eo en. last_entry (get_files A) (upd_projectID u) = Some eo \<and>
           last_entry (get_files B) (upd_projectID u) = Some en \<and>
           fileID eo \<noteq> fileID en \<and> old_fileID u = fileID eo \<and> new_fileID u = fileID en}"
  by (simp add: files_by_project_get compare_manifests_def Let_def set_not_in
      set_update_loop files_by_project_mem)

text \<open>
  The test the specification names for C2: a manifest with two entries for
  project 5 and different file identifiers, compared with a manifest holding the
  second of them.  The second entry decides: nothing is added or removed, and no
  update is reported, although the first entry has another file identifier.
\<close>

theorem C2_last_occurrence_wins_witness:
  "last_entry [\<lparr>projectID = 5, fileID = 50, required = None\<rparr>,
               \<lparr>projectID = 5, fileID = 51, required = None\<rparr>] 5
     = Some \<lparr>projectID = 5, fileID = 51, required = None\<rparr> \<and>
   dict_get (files_by_project [\<lparr>projectID = 5, fileID = 50, required = None\<rparr>,
               \<lparr>projectID = 5, fileID = 51, required = None\<rparr>]) 5
     = Some \<lparr>projectID = 5, fileID = 51, required = None\<rparr>"
  using C2_last_occurrence_wins
    [of "[\<lparr>projectID = 5, fileID = 50, required = None\<rparr>,
          \<lparr>projectID = 5, fileID = 51, required = None\<rparr>]" 5]
  by (simp add: last_entry_def)

text \<open>
  C7.  Symmetry: for all manifests A and B, the project identifiers of the
  additions of diff(A, B) are those of the removals of diff(B, A), and the project
  identifiers of the removals of diff(A, B) are those of the additions of
  diff(B, A).
\<close>

theorem C7_diff_symmetry:
  "projectID ` set (additions (compare_manifests A B)) =
     projectID ` set (removals (compare_manifests B A)) \<and>
   projectID ` set (removals (compare_manifests A B)) =
     projectID ` set (additions (compare_manifests B A))"
  by (simp add: compare_manifests_def Let_def)

text \<open>
  C8.  For every manifest A whose project identifiers are unique, diff(A, A) has
  no additions, no removals and no updates.
\<close>

theorem C8_diff_self_empty:
  "distinct (map projectID (get_files A)) \<Longrightarrow>
   compare_manifests A A = \<lparr>additions = [], removals = [], updates = []\<rparr>"
  by (rule compare_manifests_self)

text \<open>
  C8 at a concrete input: a manifest with the two projects 1 and 2, compared with
  itself.
\<close>

theorem C8_diff_self_empty_witness:
  "distinct (map projectID (get_files
      \<lparr>files = Some [\<lparr>projectID = 1, fileID = 10, required = None\<rparr>,
                     \<lparr>projectID = 2, fileID = 20, required = Some True\<rparr>]\<rparr>)) \<and>
   compare_manifests
      \<lparr>files = Some [\<lparr>projectID = 1, fileID = 10, required = None\<rparr>,
                     \<lparr>projectID = 2, fileID = 20, required = Some True\<rparr>]\<rparr>
      \<lparr>files = Some [\<lparr>projectID = 1, fileID = 10, required = None\<rparr>,
                     \<lparr>projectID = 2, fileID = 20, required = Some True\<rparr>]\<rparr>
    = \<lparr>additions = [], removals = [], updates = []\<rparr>"
proof -
  have h: "distinct (map projectID (get_files
      \<lparr>files = Some [\<lparr>projectID = 1, fileID = 10, required = None\<rparr>,
                     \<lparr>projectID = 2, fileID = 20, required = Some True\<rparr>]\<rparr>))"
    by (simp add: get_files_def)
  from h C8_diff_self_empty [OF h] show ?thesis by simp
qed

lemma set_files_by_project:
  "set (map snd (files_by_project xs)) = {e. \<exists>p. last_entry xs p = Some e}"
proof (intro set_eqI iffI)
  fix e assume "e \<in> set (map snd (files_by_project xs))"
  then obtain p where "(p, e) \<in> set (files_by_project xs)" by auto
  then show "e \<in> {e. \<exists>p. last_entry xs p = Some e}"
    by (auto simp: files_by_project_mem)
next
  fix e assume "e \<in> {e. \<exists>p. last_entry xs p = Some e}"
  then obtain p where "last_entry xs p = Some e" by auto
  then have "(p, e) \<in> set (files_by_project xs)" by (simp add: files_by_project_mem)
  then show "e \<in> set (map snd (files_by_project xs))" by force
qed

lemma projectID_files_by_project:
  "projectID ` set (map snd (files_by_project xs)) = projectID ` set xs"
proof -
  have "projectID ` {e. \<exists>p. last_entry xs p = Some e} = projectID ` set xs"
  proof (intro set_eqI iffI)
    fix p assume "p \<in> projectID ` {e. \<exists>p. last_entry xs p = Some e}"
    then show "p \<in> projectID ` set xs" using last_entry_Some by blast
  next
    fix p assume "p \<in> projectID ` set xs"
    then have "last_entry xs p \<noteq> None" by (simp add: last_entry_None)
    then obtain e where e: "last_entry xs p = Some e" by auto
    with last_entry_Some [OF e] show "p \<in> projectID ` {e. \<exists>p. last_entry xs p = Some e}"
      by (metis (mono_tags, lifting) image_eqI mem_Collect_eq)
  qed
  then show ?thesis by (simp only: set_files_by_project)
qed

lemma compare_manifests_old_missing:
  "files old = None \<Longrightarrow>
   compare_manifests old new =
     \<lparr>additions = map snd (files_by_project (get_files new)), removals = [], updates = []\<rparr>"
  by (simp add: compare_manifests_def get_files_def files_by_project_Nil not_in_empty
      empty_not_in)

lemma compare_manifests_new_missing:
  "files new = None \<Longrightarrow>
   compare_manifests old new =
     \<lparr>additions = [], removals = map snd (files_by_project (get_files old)), updates = []\<rparr>"
  by (simp add: compare_manifests_def Let_def get_files_def [of new] files_by_project_Nil
      not_in_empty empty_not_in update_loop_empty)

text \<open>
  C10, as stated: when a manifest lacks the \<^verbatim>\<open>files\<close> key, every entry of the other
  manifest is classified as an addition (or removal).  That fails when the other
  manifest repeats a project identifier: with no \<^verbatim>\<open>files\<close> key in the old manifest
  and two entries for project 5 in the new one, the first of the two is an entry
  of the new manifest and is not among the additions, which hold the second only.
\<close>

theorem C10_every_entry_counterexample:
  "\<lparr>projectID = 5, fileID = 50, required = None\<rparr>
     \<in> set (get_files \<lparr>files = Some [\<lparr>projectID = 5, fileID = 50, required = None\<rparr>,
                                     \<lparr>projectID = 5, fileID = 51, required = None\<rparr>]\<rparr>) \<and>
   additions (compare_manifests \<lparr>files = None\<rparr>
       \<lparr>files = Some [\<lparr>projectID = 5, fileID = 50, required = None\<rparr>,
                      \<lparr>projectID = 5, fileID = 51, required = None\<rparr>]\<rparr>)
     = [\<lparr>projectID = 5, fileID = 51, required = None\<rparr>] \<and>
   \<lparr>projectID = 5, fileID = 50, required = None\<rparr>
     \<notin> set (additions (compare_manifests \<lparr>files = None\<rparr>
       \<lparr>files = Some [\<lparr>projectID = 5, fileID = 50, required = None\<rparr>,
                      \<lparr>projectID = 5, fileID = 51, required = None\<rparr>]\<rparr>))"
  by (simp add: compare_manifests_def get_files_def files_by_project_def not_in_def
      dict_mem_def dict_keys_def dict_get_def)

text \<open>
  C10, amended.  A manifest without the \<^verbatim>\<open>files\<close> key is treated as one with an empty
  list, and the comparison returns a result.  When the old manifest lacks the key,
  every project identifier of the new manifest is classified as an addition,
  represented by the last entry that carries it (so the additions are all the
  entries of the new manifest when its project identifiers are unique), and there
  are no removals and no updates.  When the new manifest lacks the key, the same
  holds of the old manifest and the removals, with no additions and no updates.
  When both lack it, all three lists are empty.
\<close>

theorem C10_missing_files_key:
  "(files old = None \<longrightarrow>
      compare_manifests old new = compare_manifests (old\<lparr>files := Some []\<rparr>) new \<and>
      set (additions (compare_manifests old new)) =
        {e. \<exists>p. last_entry (get_files new) p = Some e} \<and>
      projectID ` set (additions (compare_manifests old new)) =
        projectID ` set (get_files new) \<and>
      (distinct (map projectID (get_files new)) \<longrightarrow>
         additions (compare_manifests old new) = get_files new) \<and>
      removals (compare_manifests old new) = [] \<and>
      updates (compare_manifests old new) = []) \<and>
   (files new = None \<longrightarrow>
      compare_manifests old new = compare_manifests old (new\<lparr>files := Some []\<rparr>) \<and>
      set (removals (compare_manifests old new)) =
        {e. \<exists>p. last_entry (get_files old) p = Some e} \<and>
      projectID ` set (removals (compare_manifests old new)) =
        projectID ` set (get_files old) \<and>
      (distinct (map projectID (get_files old)) \<longrightarrow>
         removals (compare_manifests old new) = get_files old) \<and>
      additions (compare_manifests old new) = [] \<and>
      updates (compare_manifests old new) = []) \<and>
   (files old = None \<and> files new = None \<longrightarrow>
      compare_manifests old new = \<lparr>additions = [], removals = [], updates = []\<rparr>)"
proof (intro conjI impI)
  assume o: "files old = None"
  note r = compare_manifests_old_missing [OF o, of new]
  show "compare_manifests old new = compare_manifests (old\<lparr>files := Some []\<rparr>) new"
    using o by (simp add: compare_manifests_def get_files_def)
  show "set (additions (compare_manifests old new)) =
        {e. \<exists>p. last_entry (get_files new) p = Some e}"
    by (simp only: r diff_result.simps set_files_by_project)
  show "projectID ` set (additions (compare_manifests old new)) =
        projectID ` set (get_files new)"
    by (simp only: r diff_result.simps projectID_files_by_project)
  show "removals (compare_manifests old new) = []" by (simp add: r)
  show "updates (compare_manifests old new) = []" by (simp add: r)
  show "additions (compare_manifests old new) = get_files new"
    if "distinct (map projectID (get_files new))"
    using that by (simp add: r files_by_project_unique)
next
  assume n: "files new = None"
  note r = compare_manifests_new_missing [OF n, of old]
  show "compare_manifests old new = compare_manifests old (new\<lparr>files := Some []\<rparr>)"
    using n by (simp add: compare_manifests_def get_files_def)
  show "set (removals (compare_manifests old new)) =
        {e. \<exists>p. last_entry (get_files old) p = Some e}"
    by (simp only: r diff_result.simps set_files_by_project)
  show "projectID ` set (removals (compare_manifests old new)) =
        projectID ` set (get_files old)"
    by (simp only: r diff_result.simps projectID_files_by_project)
  show "additions (compare_manifests old new) = []" by (simp add: r)
  show "updates (compare_manifests old new) = []" by (simp add: r)
  show "removals (compare_manifests old new) = get_files old"
    if "distinct (map projectID (get_files old))"
    using that by (simp add: r files_by_project_unique)
next
  assume "files old = None \<and> files new = None"
  then show "compare_manifests old new = \<lparr>additions = [], removals = [], updates = []\<rparr>"
    by (simp add: compare_manifests_old_missing get_files_def files_by_project_Nil)
qed

text \<open>
  C10 at a concrete input: a manifest without the \<^verbatim>\<open>files\<close> key against one with
  the two projects 1 and 2, in both orders, and against itself.
\<close>

theorem C10_missing_files_key_witness:
  "files \<lparr>files = None\<rparr> = None \<and>
   distinct (map projectID (get_files
      \<lparr>files = Some [\<lparr>projectID = 1, fileID = 10, required = None\<rparr>,
                     \<lparr>projectID = 2, fileID = 20, required = None\<rparr>]\<rparr>)) \<and>
   additions (compare_manifests \<lparr>files = None\<rparr>
      \<lparr>files = Some [\<lparr>projectID = 1, fileID = 10, required = None\<rparr>,
                     \<lparr>projectID = 2, fileID = 20, required = None\<rparr>]\<rparr>)
     = [\<lparr>projectID = 1, fileID = 10, required = None\<rparr>,
        \<lparr>projectID = 2, fileID = 20, required = None\<rparr>] \<and>
   removals (compare_manifests
      \<lparr>files = Some [\<lparr>projectID = 1, fileID = 10, required = None\<rparr>,
                     \<lparr>projectID = 2, fileID = 20, required = None\<rparr>]\<rparr> \<lparr>files = None\<rparr>)
     = [\<lparr>projectID = 1, fileID = 10, required = None\<rparr>,
        \<lparr>projectID = 2, fileID = 20, required = None\<rparr>] \<and>
   compare_manifests \<lparr>files = None\<rparr> \<lparr>files = None\<rparr>
     = \<lparr>additions = [], removals = [], updates = []\<rparr>"
proof -
  let ?E = "\<lparr>files = None\<rparr>"
  let ?M = "\<lparr>files = Some [\<lparr>projectID = 1, fileID = 10, required = None\<rparr>,
                          \<lparr>projectID = 2, fileID = 20, required = None\<rparr>]\<rparr>"
  have e: "files ?E = None" by simp
  have g: "get_files ?M = [\<lparr>projectID = 1, fileID = 10, required = None\<rparr>,
                           \<lparr>projectID = 2, fileID = 20, required = None\<rparr>]"
    by (simp add: get_files_def)
  have d: "distinct (map projectID (get_files ?M))" by (simp add: g)
  have a: "additions (compare_manifests ?E ?M) = get_files ?M"
    using C10_missing_files_key [of ?E ?M] e d by blast
  have r: "removals (compare_manifests ?M ?E) = get_files ?M"
    using C10_missing_files_key [of ?M ?E] e d by blast
  have b: "compare_manifests ?E ?E = \<lparr>additions = [], removals = [], updates = []\<rparr>"
    using C10_missing_files_key [of ?E ?E] e by blast
  show ?thesis using e d a r b by (simp only: g)
qed

section \<open>Properties of the cache, the fetcher and the orchestrator\<close>

lemma submitted_append [simp]: "submitted (xs @ ys) = submitted xs @ submitted ys"
  by (induction xs rule: submitted.induct) simp_all

lemma http_gets_append [simp]: "http_gets (xs @ ys) = http_gets xs @ http_gets ys"
  by (induction xs rule: http_gets.induct) simp_all

lemma pools_append [simp]: "pools (xs @ ys) = pools xs @ pools ys"
  by (induction xs rule: pools.induct) simp_all

lemma sleeps_append [simp]: "sleeps (xs @ ys) = sleeps xs @ sleeps ys"
  by (induction xs rule: sleeps.induct) simp_all

lemma submitted_map_Submit [simp]: "submitted (map Submit_mod xs) = xs"
  by (induction xs) simp_all

lemma http_gets_map_Submit [simp]: "http_gets (map Submit_mod xs) = []"
  by (induction xs) simp_all

lemma pools_map_Submit [simp]: "pools (map Submit_mod xs) = []"
  by (induction xs) simp_all

lemma sleeps_map_Submit [simp]: "sleeps (map Submit_mod xs) = []"
  by (induction xs) simp_all

text \<open>Cache reads\<close>

lemma get_mod_info_cases:
  assumes "get_mod_info pid c = (r, c', evs)"
  shows "mod_files c' = mod_files c"
    and "r = (case mod_files c pid of
                Some (Stored x) \<Rightarrow> Inr (Some x)
              | Some Undecodable \<Rightarrow> Inl UnicodeDecodeError
              | _ \<Rightarrow> Inr None)"
    and "submitted evs = []" and "http_gets evs = []" and "pools evs = []"
    and "sleeps evs = []"
  using assms
  by (auto simp: get_mod_info_def split: option.splits cache_file.splits)

lemma lookup_mod_result:
  "fst (lookup_mod pid s) =
     (if read_raises s pid then Inl UnicodeDecodeError else Inr (cached_mod s pid))"
proof (cases "cache s")
  case None
  then show ?thesis by (simp add: lookup_mod_def cached_mod_def read_raises_def)
next
  case (Some c)
  obtain r c' evs where g: "get_mod_info pid c = (r, c', evs)" by (cases "get_mod_info pid c")
  show ?thesis using Some g get_mod_info_cases(2) [OF g]
    by (simp add: lookup_mod_def cached_mod_def read_raises_def
        split: option.split cache_file.split)
qed

lemma lookup_mod_raises: "read_raises (snd (lookup_mod pid s)) q = read_raises s q"
proof (cases "cache s")
  case None
  then show ?thesis by (simp add: lookup_mod_def)
next
  case (Some c)
  obtain r c' evs where g: "get_mod_info pid c = (r, c', evs)" by (cases "get_mod_info pid c")
  show ?thesis using Some g get_mod_info_cases(1) [OF g]
    by (simp add: lookup_mod_def emit_def read_raises_def)
qed

lemma lookup_mod_cache_None: "cache (snd (lookup_mod pid s)) = None \<longleftrightarrow> cache s = None"
proof (cases "cache s")
  case None
  then show ?thesis by (simp add: lookup_mod_def)
next
  case (Some c)
  obtain r c' evs where g: "get_mod_info pid c = (r, c', evs)" by (cases "get_mod_info pid c")
  show ?thesis using Some g by (simp add: lookup_mod_def emit_def)
qed

lemma lookup_mod_cached: "cached_mod (snd (lookup_mod pid s)) q = cached_mod s q"
proof (cases "cache s")
  case None
  then show ?thesis by (simp add: lookup_mod_def)
next
  case (Some c)
  obtain r c' evs where g: "get_mod_info pid c = (r, c', evs)" by (cases "get_mod_info pid c")
  show ?thesis using Some g get_mod_info_cases(1) [OF g]
    by (simp add: lookup_mod_def emit_def cached_mod_def)
qed

lemma lookup_mod_trace:
  "\<exists>evs. trace (snd (lookup_mod pid s)) = trace s @ evs \<and> submitted evs = [] \<and>
         http_gets evs = [] \<and> pools evs = [] \<and> sleeps evs = []"
proof (cases "cache s")
  case None
  then show ?thesis by (simp add: lookup_mod_def)
next
  case (Some c)
  obtain r c' evs where g: "get_mod_info pid c = (r, c', evs)" by (cases "get_mod_info pid c")
  show ?thesis using Some g get_mod_info_cases(3-6) [OF g]
    by (simp add: lookup_mod_def emit_def)
qed

text \<open>Cache writes\<close>

lemma store_mod_cache_None: "cache (store_mod w pid r s) = None \<longleftrightarrow> cache s = None"
  by (simp add: store_mod_def set_mod_info_def emit_def split: option.split)

lemma store_mod_cached:
  "cached_mod (store_mod w pid r s) q = (if q = pid then stored_as w s pid r else cached_mod s q)"
  by (simp add: store_mod_def set_mod_info_def emit_def cached_mod_def stored_as_def
      split: option.split)

lemma store_mod_raises: "read_raises (store_mod w pid r s) q \<Longrightarrow> read_raises s q"
  by (auto simp: store_mod_def set_mod_info_def emit_def read_raises_def
      split: option.splits if_splits)

lemma store_mod_trace:
  "\<exists>evs. trace (store_mod w pid r s) = trace s @ evs \<and> submitted evs = [] \<and>
         http_gets evs = [] \<and> pools evs = [] \<and> sleeps evs = []"
  by (simp add: store_mod_def set_mod_info_def emit_def split: option.split)

lemma emit_cache [simp]: "cache (emit evs s) = cache s"
  by (simp add: emit_def)

lemma emit_trace [simp]: "trace (emit evs s) = trace s @ evs"
  by (simp add: emit_def)

lemma emit_cached [simp]: "cached_mod (emit evs s) q = cached_mod s q"
  by (simp add: emit_def cached_mod_def)

lemma emit_raises [simp]: "read_raises (emit evs s) q = read_raises s q"
  by (simp add: emit_def read_raises_def)

lemma emit_stored_as [simp]: "stored_as w (emit evs s) pid r = stored_as w s pid r"
  by (simp add: stored_as_def)

lemma try_mod_urls_result:
  "fst (try_mod_urls w pid urls s) = fst (try_mod_urls w pid urls s0)"
proof (induction urls arbitrary: s s0)
  case Nil
  show ?case by simp
next
  case (Cons url urls)
  note IH = Cons.IH
  show ?case
  proof (cases "requests_get w url")
    case (Inl e)
    then show ?thesis using IH by (simp add: Let_def)
  next
    case (Inr response)
    show ?thesis
    proof (cases "status_code response \<noteq> 200")
      case True
      then show ?thesis using Inr IH by (simp add: Let_def)
    next
      case False
      then show ?thesis using Inr IH
        by (cases "project_title w (resp_text response)") (simp_all add: Let_def)
    qed
  qed
qed

lemma try_mod_urls_state:
  assumes "try_mod_urls w pid urls s = (res, s')"
  shows "(cache s' = None \<longleftrightarrow> cache s = None) \<and>
         (\<forall>q. cached_mod s' q =
            (case res of
               Inr (Some r) \<Rightarrow> if q = pid then stored_as w s pid r else cached_mod s q
             | _ \<Rightarrow> cached_mod s q)) \<and>
         (\<exists>evs. trace s' = trace s @ evs \<and> submitted evs = [] \<and> pools evs = [] \<and>
                sleeps evs = []) \<and>
         (\<forall>q. read_raises s' q \<longrightarrow> read_raises s q)"
  using assms
proof (induction urls arbitrary: s)
  case Nil
  then show ?case by auto
next
  case (Cons url urls)
  let ?s1 = "emit [Http_get url] s"
  let ?s2 = "emit [Stderr (''Error with URL '' @ url @ '' for project '' @ str_int pid)] ?s1"
  have skip1: ?case if "try_mod_urls w pid urls ?s1 = (res, s')"
  proof -
    from Cons.IH [OF that] show ?thesis by (auto split: sum.splits option.splits)
  qed
  have skip2: ?case if "try_mod_urls w pid urls ?s2 = (res, s')"
  proof -
    from Cons.IH [OF that] show ?thesis by (auto split: sum.splits option.splits)
  qed
  show ?case
  proof (cases "requests_get w url")
    case (Inl e)
    show ?thesis
    proof (cases "caught e")
      case True
      with Inl Cons.prems have "try_mod_urls w pid urls ?s2 = (res, s')" by (simp add: Let_def)
      then show ?thesis by (rule skip2)
    next
      case False
      with Inl Cons.prems have "res = Inl e" "s' = ?s1" by (simp_all add: Let_def)
      then show ?thesis by simp
    qed
  next
    case (Inr response)
    show ?thesis
    proof (cases "status_code response \<noteq> 200")
      case True
      with Inr Cons.prems have "try_mod_urls w pid urls ?s1 = (res, s')" by (simp add: Let_def)
      then show ?thesis by (rule skip1)
    next
      case ok: False
      show ?thesis
      proof (cases "project_title w (resp_text response)")
        case (Inl e)
        show ?thesis
        proof (cases "caught e")
          case True
          with Inl Inr ok Cons.prems have "try_mod_urls w pid urls ?s2 = (res, s')"
            by (simp add: Let_def)
          then show ?thesis by (rule skip2)
        next
          case False
          with Inl Inr ok Cons.prems have "res = Inl e" "s' = ?s1" by (simp_all add: Let_def)
          then show ?thesis by simp
        qed
      next
        case title: (Inr title)
        define r where "r = \<lparr>mod_id = pid,
            mod_name = (case title of Some t \<Rightarrow> t | None \<Rightarrow> ''Project-'' @ str_int pid),
            mod_url = url\<rparr>"
        from title Inr ok Cons.prems have res: "res = Inr (Some r)" and s': "s' = store_mod w pid r ?s1"
          by (simp_all add: Let_def r_def)
        obtain evs where evs: "trace (store_mod w pid r ?s1) = trace ?s1 @ evs"
          "submitted evs = []" "pools evs = []" "sleeps evs = []"
          using store_mod_trace [of w pid r ?s1] by blast
        have rr: "read_raises (store_mod w pid r ?s1) q \<longrightarrow> read_raises s q" for q
          using store_mod_raises [of w pid r ?s1 q] by simp
        show ?thesis
          using evs rr by (simp add: res s' store_mod_cache_None store_mod_cached)
      qed
    qed
  qed
qed

lemma lookup_mod_no_cache: "lookup_mod pid uncached = (Inr None, uncached)"
  by (simp add: lookup_mod_def uncached_def)

lemma read_raises_cached: "read_raises s p \<Longrightarrow> cached_mod s p = None"
  by (auto simp: read_raises_def cached_mod_def split: option.splits)

lemma read_raises_uncached: "\<not> read_raises uncached p"
  by (simp add: read_raises_def uncached_def)

lemma scrape_mod_info_result:
  "fst (scrape_mod_info w pid s) =
     (if read_raises s pid then Inl UnicodeDecodeError
      else case cached_mod s pid of Some r \<Rightarrow> Inr r | None \<Rightarrow> fetch_alone w pid)"
proof -
  obtain c1 s1 where l: "lookup_mod pid s = (c1, s1)" by (cases "lookup_mod pid s")
  have c1: "c1 = (if read_raises s pid then Inl UnicodeDecodeError else Inr (cached_mod s pid))"
    using lookup_mod_result [of pid s] l by simp
  show ?thesis
  proof (cases "read_raises s pid")
    case True
    then show ?thesis using l c1 by (simp add: scrape_mod_info_def)
  next
    case nr: False
    show ?thesis
    proof (cases "cached_mod s pid")
      case (Some r)
      then show ?thesis using l c1 nr by (simp add: scrape_mod_info_def)
    next
      case None
      obtain res0 s2 where t: "try_mod_urls w pid (mod_urls pid) s1 = (res0, s2)"
        by (cases "try_mod_urls w pid (mod_urls pid) s1")
      obtain res0' s2' where t': "try_mod_urls w pid (mod_urls pid) uncached = (res0', s2')"
        by (cases "try_mod_urls w pid (mod_urls pid) uncached")
      have eq: "res0' = res0"
        using try_mod_urls_result [of w pid "mod_urls pid" s1 uncached] t t' by simp
      show ?thesis
        using None c1 nr l t t' eq
        by (simp add: scrape_mod_info_def fetch_alone_def lookup_mod_no_cache Let_def
            split: sum.split option.split)
    qed
  qed
qed

lemma scrape_mod_info_state:
  assumes "scrape_mod_info w pid s = (res, s')"
  shows "(cache s' = None \<longleftrightarrow> cache s = None) \<and>
         (\<forall>q. cached_mod s' q =
            (if q = pid
             then (case cached_mod s pid of
                     Some r \<Rightarrow> Some r
                   | None \<Rightarrow> (case res of Inr r \<Rightarrow> stored_as w s pid r | Inl e \<Rightarrow> None))
             else cached_mod s q)) \<and>
         (\<exists>evs. trace s' = trace s @ evs \<and> submitted evs = [] \<and> pools evs = [] \<and>
                sleeps evs = [] \<and> (cached_mod s pid \<noteq> None \<longrightarrow> http_gets evs = [])) \<and>
         (\<forall>q. read_raises s' q \<longrightarrow> read_raises s q)"
proof -
  obtain c1 s1 where l: "lookup_mod pid s = (c1, s1)" by (cases "lookup_mod pid s")
  have c1: "c1 = (if read_raises s pid then Inl UnicodeDecodeError else Inr (cached_mod s pid))"
    using lookup_mod_result [of pid s] l by simp
  have n1: "cache s1 = None \<longleftrightarrow> cache s = None" using lookup_mod_cache_None [of pid s] l by simp
  have m1: "cached_mod s1 q = cached_mod s q" for q using lookup_mod_cached [of pid s q] l by simp
  have r1: "read_raises s1 q = read_raises s q" for q using lookup_mod_raises [of pid s q] l by simp
  have st1: "stored_as w s1 pid r = stored_as w s pid r" for r
    by (simp add: stored_as_def n1 m1)
  obtain evs1 where e1: "trace s1 = trace s @ evs1" "submitted evs1 = []" "http_gets evs1 = []"
      "pools evs1 = []" "sleeps evs1 = []"
    using lookup_mod_trace [of pid s] l by auto
  show ?thesis
  proof (cases c1)
    case (Inl e)
    with l assms have r: "res = Inl e" "s' = s1" by (simp_all add: scrape_mod_info_def)
    have "read_raises s pid" using Inl c1 by (simp split: if_splits)
    then have cn: "cached_mod s pid = None" by (rule read_raises_cached)
    show ?thesis using e1 by (simp add: r n1 m1 r1 cn)
  next
    case (Inr co)
    show ?thesis
    proof (cases co)
      case (Some r)
      with Inr l assms have r: "res = Inr r" "s' = s1" by (simp_all add: scrape_mod_info_def)
      have cs: "cached_mod s pid = Some r" using Some Inr c1 by (simp split: if_splits)
      show ?thesis using e1 by (simp add: r n1 m1 r1 cs)
    next
      case None
      obtain res0 s2 where t: "try_mod_urls w pid (mod_urls pid) s1 = (res0, s2)"
        by (cases "try_mod_urls w pid (mod_urls pid) s1")
      note ts = try_mod_urls_state [OF t]
      from ts obtain evs2 where e2: "trace s2 = trace s1 @ evs2" "submitted evs2 = []"
          "pools evs2 = []" "sleeps evs2 = []" by blast
      have n2: "cache s2 = None \<longleftrightarrow> cache s = None" using ts n1 by simp
      have r2: "read_raises s2 q \<longrightarrow> read_raises s q" for q using ts r1 by simp
      have cn: "cached_mod s pid = None" using None Inr c1 by (simp split: if_splits)
      show ?thesis
      proof (cases res0)
        case e: (Inl e)
        with None Inr l t assms have r: "res = Inl e" "s' = s2"
          by (simp_all add: scrape_mod_info_def)
        have "cached_mod s2 q = cached_mod s q" for q using ts e m1 by simp
        then show ?thesis using r n2 r2 e1 e2 cn by auto
      next
        case ro: (Inr ro)
        show ?thesis
        proof (cases ro)
          case (Some r)
          with ro None Inr l t assms have r: "res = Inr r" "s' = s2"
            by (simp_all add: scrape_mod_info_def)
          have "cached_mod s2 q = (if q = pid then stored_as w s pid r else cached_mod s q)"
            for q
            using ts ro Some m1 st1 by simp
          then show ?thesis using r n2 r2 e1 e2 cn by auto
        next
          case no: None
          define minimal where "minimal = \<lparr>mod_id = pid,
              mod_name = ''Project-'' @ str_int pid,
              mod_url = ''https://www.curseforge.com/minecraft/mc-mods/'' @ str_int pid\<rparr>"
          define s3 where
            "s3 = emit [Stderr (''Failed to scrape info for project '' @ str_int pid)] s2"
          from no ro None Inr l t assms
          have r: "res = Inr minimal" "s' = store_mod w pid minimal s3"
            by (simp_all add: scrape_mod_info_def Let_def minimal_def s3_def)
          have m2: "cached_mod s2 q = cached_mod s q" for q using ts ro no m1 by simp
          have st3: "stored_as w s3 pid minimal = stored_as w s pid minimal"
            by (simp add: stored_as_def s3_def n2 m2)
          obtain evs3 where e3: "trace (store_mod w pid minimal s3) = trace s3 @ evs3"
            "submitted evs3 = []" "pools evs3 = []" "sleeps evs3 = []"
            using store_mod_trace [of w pid minimal s3] by blast
          have "cached_mod s' q =
              (if q = pid then stored_as w s pid minimal else cached_mod s q)" for q
            by (simp add: r store_mod_cached st3) (simp add: s3_def m2)
          moreover have "cache s' = None \<longleftrightarrow> cache s = None"
            by (simp add: r store_mod_cache_None s3_def n2)
          moreover have "trace s' = trace s @ (evs1 @ evs2 @
              [Stderr (''Failed to scrape info for project '' @ str_int pid)] @ evs3)"
          proof -
            have "trace s' = trace s3 @ evs3" using r(2) e3(1) by simp
            moreover have "trace s3 = trace s2 @
                [Stderr (''Failed to scrape info for project '' @ str_int pid)]"
              by (simp add: s3_def)
            ultimately show ?thesis using e2(1) e1(1) by simp
          qed
          moreover have "read_raises s' q \<longrightarrow> read_raises s q" for q
          proof
            assume "read_raises s' q"
            then have "read_raises s3 q" unfolding r(2) by (rule store_mod_raises)
            then have "read_raises s2 q" by (simp add: s3_def)
            then show "read_raises s q" using r2 by simp
          qed
          ultimately show ?thesis using r(1) cn e1 e2 e3
            by (intro conjI allI exI [of _ "evs1 @ evs2 @
              [Stderr (''Failed to scrape info for project '' @ str_int pid)] @ evs3"]) simp_all
        qed
      qed
    qed
  qed
qed

lemma dict_keys_simps [simp]:
  "dict_keys [] = []" "dict_keys ((k, v) # d) = k # dict_keys d"
  "dict_keys (a @ b) = dict_keys a @ dict_keys b"
  by (simp_all add: dict_keys_def)

lemma hits_Nil [simp]: "hits s [] = []"
  by (simp add: hits_def)

lemma fetched_Nil [simp]: "fetched w [] = []"
  by (simp add: fetched_def)

lemma hits_Cons:
  "hits s (p # ids) = (case cached_mod s p of Some r \<Rightarrow> [(p, r)] | None \<Rightarrow> []) @ hits s ids"
  by (simp add: hits_def)

lemma fetched_Cons:
  "fetched w (p # ids) =
     (case fetch_alone w p of Inr r \<Rightarrow> [(p, r)] | Inl e \<Rightarrow> []) @ fetched w ids"
  by (simp add: fetched_def)

lemma hits_keys: "set (dict_keys (hits s ids)) = {p \<in> set ids. cached_mod s p \<noteq> None}"
proof (induction ids)
  case Nil
  show ?case by simp
next
  case (Cons a ids)
  show ?case by (cases "cached_mod s a") (auto simp: hits_Cons Cons.IH)
qed

lemma fetched_keys: "set (dict_keys (fetched w ids)) = {p \<in> set ids. \<not> isl (fetch_alone w p)}"
proof (induction ids)
  case Nil
  show ?case by simp
next
  case (Cons a ids)
  show ?case by (cases "fetch_alone w a") (auto simp: fetched_Cons Cons.IH)
qed

lemma filter_neq_id: "p \<notin> set ids \<Longrightarrow> filter (\<lambda>q. q \<noteq> p) ids = ids"
  by (induction ids) auto

lemma remove1_filter: "distinct ids \<Longrightarrow> remove1 p ids = filter (\<lambda>q. q \<noteq> p) ids"
  by (induction ids) (auto simp: filter_neq_id)

lemma check_mod_cache_char:
  assumes "check_mod_cache xs (mi, ids, s) = (res, s')"
    and "distinct xs" and "distinct ids" and "set xs \<inter> set (dict_keys mi) = {}"
    and "\<forall>p\<in>set xs. \<not> read_raises s p"
  shows "res = Inr (mi @ hits s xs,
                    filter (\<lambda>p. \<not> (p \<in> set xs \<and> cached_mod s p \<noteq> None)) ids) \<and>
         (cache s' = None \<longleftrightarrow> cache s = None) \<and>
         (\<forall>q. cached_mod s' q = cached_mod s q) \<and>
         (\<forall>q. read_raises s' q = read_raises s q) \<and>
         (\<exists>evs. trace s' = trace s @ evs \<and> submitted evs = [] \<and> http_gets evs = [] \<and>
                pools evs = [] \<and> sleeps evs = [])"
  using assms
proof (induction xs arbitrary: mi ids s)
  case Nil
  then show ?case by (simp add: hits_def)
next
  case (Cons p xs)
  obtain c1 s1 where l: "lookup_mod p s = (c1, s1)" by (cases "lookup_mod p s")
  have nrp: "\<not> read_raises s p" using Cons.prems(5) by simp
  have c1: "c1 = Inr (cached_mod s p)" using lookup_mod_result [of p s] l nrp by simp
  have n1: "cache s1 = None \<longleftrightarrow> cache s = None" using lookup_mod_cache_None [of p s] l by simp
  have m1: "cached_mod s1 q = cached_mod s q" for q using lookup_mod_cached [of p s q] l by simp
  have r1: "read_raises s1 q = read_raises s q" for q using lookup_mod_raises [of p s q] l by simp
  obtain evs1 where e1: "trace s1 = trace s @ evs1" "submitted evs1 = []" "http_gets evs1 = []"
      "pools evs1 = []" "sleeps evs1 = []"
    using lookup_mod_trace [of p s] l by auto
  have dx: "distinct xs" and pxs: "p \<notin> set xs" using Cons.prems(2) by simp_all
  have hs: "hits s1 xs = hits s xs" by (simp add: hits_def m1)
  have nr1: "\<forall>q\<in>set xs. \<not> read_raises s1 q" using Cons.prems(5) by (simp add: r1)
  show ?case
  proof (cases "cached_mod s p")
    case None
    with l c1 Cons.prems(1) have rec: "check_mod_cache xs (mi, ids, s1) = (res, s')" by simp
    have disj: "set xs \<inter> set (dict_keys mi) = {}" using Cons.prems(4) by auto
    note IH = Cons.IH [OF rec dx Cons.prems(3) disj nr1]
    from IH obtain evs2 where e2: "trace s' = trace s1 @ evs2" "submitted evs2 = []"
        "http_gets evs2 = []" "pools evs2 = []" "sleeps evs2 = []" by blast
    have "filter (\<lambda>q. \<not> (q \<in> set xs \<and> cached_mod s q \<noteq> None)) ids =
          filter (\<lambda>q. \<not> (q \<in> set (p # xs) \<and> cached_mod s q \<noteq> None)) ids"
      using None by (intro filter_cong) auto
    then show ?thesis
      using IH e1 e2 None by (simp add: hs m1 n1 r1 hits_Cons)
  next
    case (Some r)
    from Some l c1 Cons.prems(1)
    have rec: "check_mod_cache xs (dict_set p r mi, remove1 p ids, s1) = (res, s')"
      by simp
    have fresh: "p \<notin> set (dict_keys mi)" using Cons.prems(4) by auto
    have ds: "dict_set p r mi = mi @ [(p, r)]" by (rule dict_set_fresh [OF fresh])
    have disj: "set xs \<inter> set (dict_keys (dict_set p r mi)) = {}"
      using Cons.prems(4) pxs by (auto simp: ds dict_keys_def)
    have dr: "distinct (remove1 p ids)" using Cons.prems(3) by simp
    note IH = Cons.IH [OF rec dx dr disj nr1]
    from IH obtain evs2 where e2: "trace s' = trace s1 @ evs2" "submitted evs2 = []"
        "http_gets evs2 = []" "pools evs2 = []" "sleeps evs2 = []" by blast
    have "filter (\<lambda>q. \<not> (q \<in> set xs \<and> cached_mod s q \<noteq> None)) (remove1 p ids) =
          filter (\<lambda>q. \<not> (q \<in> set (p # xs) \<and> cached_mod s q \<noteq> None)) ids"
      using Some by (simp add: remove1_filter [OF Cons.prems(3)]) (intro filter_cong, auto)
    then show ?thesis
      using IH e1 e2 Some by (simp add: hs m1 n1 r1 hits_Cons ds)
  qed
qed

lemma collect_mods_char:
  assumes "collect_mods w xs (mi, s) = (mi', s')"
    and "distinct xs" and "\<forall>p\<in>set xs. cached_mod s p = None"
    and "set xs \<inter> set (dict_keys mi) = {}"
    and "\<forall>p\<in>set xs. \<not> read_raises s p"
  shows "mi' = mi @ fetched w xs \<and>
         (cache s' = None \<longleftrightarrow> cache s = None) \<and>
         (\<forall>q. cached_mod s' q =
            (if q \<in> set xs
             then (case fetch_alone w q of Inr r \<Rightarrow> stored_as w s q r | Inl e \<Rightarrow> None)
             else cached_mod s q)) \<and>
         (\<forall>q. read_raises s' q \<longrightarrow> read_raises s q) \<and>
         (\<exists>evs. trace s' = trace s @ evs \<and> submitted evs = [] \<and> pools evs = [] \<and>
                sleeps evs = replicate (length (fetched w xs)) (1 / 2) \<and>
                (\<forall>p\<in>set xs. isl (fetch_alone w p) \<longrightarrow>
                   Stderr (''Error processing project '' @ str_int p) \<in> set evs))"
  using assms
proof (induction xs arbitrary: mi s)
  case Nil
  then show ?case by (simp add: fetched_def)
next
  case (Cons p xs)
  obtain res s1 where f: "scrape_mod_info w p s = (res, s1)" by (cases "scrape_mod_info w p s")
  have cn: "cached_mod s p = None" using Cons.prems(3) by simp
  have nrp: "\<not> read_raises s p" using Cons.prems(5) by simp
  have res: "res = fetch_alone w p" using scrape_mod_info_result [of w p s] f cn nrp by simp
  note fs = scrape_mod_info_state [OF f]
  from fs obtain evs1 where e1: "trace s1 = trace s @ evs1" "submitted evs1 = []"
      "pools evs1 = []" "sleeps evs1 = []" by blast
  have n1: "cache s1 = None \<longleftrightarrow> cache s = None" using fs by simp
  have m1: "cached_mod s1 q = cached_mod s q" if "q \<noteq> p" for q using fs that by simp
  have r1: "read_raises s1 q \<longrightarrow> read_raises s q" for q using fs by simp
  have mp: "cached_mod s1 p = (case res of Inr r \<Rightarrow> stored_as w s p r | Inl e \<Rightarrow> None)"
    using fs cn by simp
  have dx: "distinct xs" and pxs: "p \<notin> set xs" using Cons.prems(2) by simp_all
  have mx: "cached_mod s1 q = cached_mod s q" if "q \<in> set xs" for q
  proof -
    have "q \<noteq> p" using that pxs by auto
    then show ?thesis by (rule m1)
  qed
  have st: "stored_as w s1 q r = stored_as w s q r" if "q \<in> set xs" for q r
    using mx [OF that] n1 by (simp add: stored_as_def)
  have nr1: "\<forall>q\<in>set xs. \<not> read_raises s1 q" using Cons.prems(5) r1 by auto
  define ev where "ev = (case res of
      Inl e \<Rightarrow> Stderr (''Error processing project '' @ str_int p) | Inr r \<Rightarrow> Sleep (1 / 2))"
  define s2 where "s2 = emit [ev] s1"
  define mi2 where "mi2 = (case res of Inl e \<Rightarrow> mi | Inr r \<Rightarrow> dict_set p r mi)"
  have rec: "collect_mods w xs (mi2, s2) = (mi', s')"
    using f Cons.prems(1) by (cases res) (simp_all add: s2_def mi2_def ev_def)
  have fresh: "p \<notin> set (dict_keys mi)" using Cons.prems(4) by auto
  have mi2: "mi2 = mi @ (case fetch_alone w p of Inr r \<Rightarrow> [(p, r)] | Inl e \<Rightarrow> [])"
    unfolding mi2_def res [symmetric] using dict_set_fresh [OF fresh]
    by (cases res) simp_all
  have none: "\<forall>q\<in>set xs. cached_mod s2 q = None"
    using Cons.prems(3) mx by (simp add: s2_def)
  have nr2: "\<forall>q\<in>set xs. \<not> read_raises s2 q" using nr1 by (simp add: s2_def)
  have disj: "set xs \<inter> set (dict_keys mi2) = {}"
    using Cons.prems(4) pxs unfolding mi2 by (cases "fetch_alone w p") auto
  note IH = Cons.IH [OF rec dx none disj nr2]
  from IH obtain evs2 where e2: "trace s' = trace s2 @ evs2" "submitted evs2 = []"
      "pools evs2 = []" "sleeps evs2 = replicate (length (fetched w xs)) (1 / 2)"
      "\<forall>q\<in>set xs. isl (fetch_alone w q) \<longrightarrow>
         Stderr (''Error processing project '' @ str_int q) \<in> set evs2" by blast
  have t: "trace s' = trace s @ (evs1 @ [ev] @ evs2)"
    using e2(1) e1(1) by (simp add: s2_def)
  have c: "cached_mod s' q =
          (if q \<in> set (p # xs)
           then (case fetch_alone w q of Inr r \<Rightarrow> stored_as w s q r | Inl e \<Rightarrow> None)
           else cached_mod s q)" for q
  proof -
    have IHc: "cached_mod s' q =
          (if q \<in> set xs
           then (case fetch_alone w q of Inr r \<Rightarrow> stored_as w s2 q r | Inl e \<Rightarrow> None)
           else cached_mod s2 q)"
      using IH by blast
    show ?thesis
    proof (cases "q = p")
      case True
      then show ?thesis using IHc pxs mp res by (simp add: s2_def split: sum.split)
    next
      case False
      have m2: "cached_mod s2 q = cached_mod s q" using m1 [OF False] by (simp add: s2_def)
      show ?thesis
      proof (cases "q \<in> set xs")
        case True
        have "stored_as w s2 q r = stored_as w s q r" for r
          using st [OF True, of r] by (simp add: s2_def)
        then show ?thesis using IHc True by (simp split: sum.split)
      next
        case nx: False
        then show ?thesis using IHc False m2 by simp
      qed
    qed
  qed
  have n: "cache s' = None \<longleftrightarrow> cache s = None" using IH n1 by (simp add: s2_def)
  have rr: "read_raises s' q \<longrightarrow> read_raises s q" for q
  proof
    assume "read_raises s' q"
    then have "read_raises s2 q" using IH by blast
    then have "read_raises s1 q" by (simp add: s2_def)
    then show "read_raises s q" using r1 by blast
  qed
  have mi': "mi' = mi @ fetched w (p # xs)" using IH by (simp add: fetched_Cons mi2)
  have sub: "submitted [ev] = []" and pl: "pools [ev] = []"
    by (cases res; simp add: ev_def)+
  have sl: "sleeps [ev] = (case fetch_alone w p of Inr r \<Rightarrow> [1 / 2] | Inl e \<Rightarrow> [])"
    unfolding res [symmetric] by (cases res) (simp_all add: ev_def)
  have lg: "isl (fetch_alone w p) \<longrightarrow>
      Stderr (''Error processing project '' @ str_int p) \<in> set (evs1 @ [ev] @ evs2)"
    unfolding res [symmetric] by (cases res) (simp_all add: ev_def)
  have sp: "sleeps (ev # evs2) = sleeps [ev] @ sleeps evs2"
    and sb: "submitted (ev # evs2) = submitted [ev] @ submitted evs2"
    and pp: "pools (ev # evs2) = pools [ev] @ pools evs2"
    using sleeps_append [of "[ev]" evs2] submitted_append [of "[ev]" evs2]
      pools_append [of "[ev]" evs2] by simp_all
  have sleeps_all: "sleeps (evs1 @ [ev] @ evs2) =
      replicate (length (fetched w (p # xs))) (1 / 2)"
    using e1(4) e2(4) sl
    by (cases "fetch_alone w p") (simp_all add: fetched_Cons sp)
  have logs: "\<forall>q\<in>set (p # xs). isl (fetch_alone w q) \<longrightarrow>
      Stderr (''Error processing project '' @ str_int q) \<in> set (evs1 @ [ev] @ evs2)"
    using lg e2(5) by auto
  have subs: "submitted (evs1 @ [ev] @ evs2) = []" using e1(2) e2(2) sub by (simp add: sb)
  have pls: "pools (evs1 @ [ev] @ evs2) = []" using e1(3) e2(3) pl by (simp add: pp)
  show ?case
    using t subs pls sleeps_all logs
    by (intro conjI allI c n mi' rr exI [of _ "evs1 @ [ev] @ evs2"]) blast+
qed

lemma project_ids_of_distinct: "distinct (project_ids_of m)"
  by (simp add: project_ids_of_def list_of_set_def)

lemma project_ids_of_set: "set (project_ids_of m) = projectID ` set (get_files m)"
  by (simp add: project_ids_of_def list_of_set_def)

lemma misses_no_cache: "cache s = None \<Longrightarrow> misses s ids = ids"
  by (simp add: misses_def cached_mod_def)

lemma hits_no_cache: "cache s = None \<Longrightarrow> hits s ids = []"
  by (induction ids) (simp_all add: hits_Cons cached_mod_def)

lemma scrape_all_mod_info_char:
  assumes run: "scrape_all_mod_info w m s = (res, s')"
    and reads: "\<forall>p\<in>set (project_ids_of m). \<not> read_raises s p"
  shows "res = Inr (hits s (project_ids_of m) @ fetched w (misses s (project_ids_of m))) \<and>
         (cache s' = None \<longleftrightarrow> cache s = None) \<and>
         (\<forall>q. cached_mod s' q =
            (if q \<in> set (misses s (project_ids_of m))
             then (case fetch_alone w q of Inr r \<Rightarrow> stored_as w s q r | Inl e \<Rightarrow> None)
             else cached_mod s q)) \<and>
         (\<forall>q. read_raises s' q \<longrightarrow> read_raises s q) \<and>
         (\<exists>evs. trace s' = trace s @ evs \<and>
                submitted evs = misses s (project_ids_of m) \<and>
                pools evs = (if misses s (project_ids_of m) = [] then [] else [3]) \<and>
                sleeps evs =
                  replicate (length (fetched w (misses s (project_ids_of m)))) (1 / 2) \<and>
                (misses s (project_ids_of m) = [] \<longrightarrow> http_gets evs = []) \<and>
                (\<forall>p\<in>set (misses s (project_ids_of m)). isl (fetch_alone w p) \<longrightarrow>
                   Stderr (''Error processing project '' @ str_int p) \<in> set evs))"
proof -
  define ids where "ids = project_ids_of m"
  have dids: "distinct ids" by (simp add: ids_def project_ids_of_distinct)
  have nr: "\<forall>p\<in>set ids. \<not> read_raises s p" using reads by (simp add: ids_def)
  define pre where "pre = (if cache s \<noteq> None then check_mod_cache ids ([], ids, s)
                             else (Inr ([], ids), s))"
  obtain r1 s1 where pre_eq: "pre = (r1, s1)" by (cases pre)
  have p1: "r1 = Inr (hits s ids, misses s ids) \<and> (cache s1 = None \<longleftrightarrow> cache s = None) \<and>
            (\<forall>q. cached_mod s1 q = cached_mod s q) \<and>
            (\<forall>q. read_raises s1 q = read_raises s q) \<and>
            (\<exists>evs. trace s1 = trace s @ evs \<and> submitted evs = [] \<and> http_gets evs = [] \<and>
                   pools evs = [] \<and> sleeps evs = [])"
  proof (cases "cache s")
    case None
    then have "r1 = Inr ([], ids)" "s1 = s" using pre_eq by (simp_all add: pre_def)
    then show ?thesis using None by (simp add: hits_no_cache misses_no_cache)
  next
    case (Some c)
    then have c: "check_mod_cache ids ([], ids, s) = (r1, s1)"
      using pre_eq by (simp add: pre_def)
    have "set ids \<inter> set (dict_keys ([] :: (int, mod_record) dict)) = {}" by simp
    note ch = check_mod_cache_char [OF c dids dids this nr]
    have "filter (\<lambda>p. \<not> (p \<in> set ids \<and> cached_mod s p \<noteq> None)) ids = misses s ids"
      unfolding misses_def by (intro filter_cong) auto
    then show ?thesis using ch by simp
  qed
  from p1 obtain evs1 where e1: "trace s1 = trace s @ evs1" "submitted evs1 = []"
      "http_gets evs1 = []" "pools evs1 = []" "sleeps evs1 = []" by blast
  define mi1 where "mi1 = hits s ids"
  define ids1 where "ids1 = misses s ids"
  have r1: "r1 = Inr (mi1, ids1)"
    and n1: "cache s1 = None \<longleftrightarrow> cache s = None"
    and m1: "\<And>q. cached_mod s1 q = cached_mod s q"
    and rr1: "\<And>q. read_raises s1 q = read_raises s q"
    using p1 by (simp_all add: mi1_def ids1_def)
  have mi1: "mi1 = hits s ids" and ids1: "ids1 = misses s ids"
    by (simp_all add: mi1_def ids1_def)
  have unfold: "scrape_all_mod_info w m s =
      (if ids1 \<noteq> []
       then (case collect_mods w ids1 (mi1, emit (Pool 3 # map Submit_mod ids1) s1) of
               (mod_info, s2) \<Rightarrow> (Inr mod_info, s2))
       else (Inr mi1, s1))"
  proof -
    have "scrape_all_mod_info w m s =
        (case pre of
           (Inl e, s1) \<Rightarrow> (Inl e, s1)
         | (Inr (mod_info, project_ids), s1) \<Rightarrow>
             if project_ids \<noteq> []
             then (case collect_mods w project_ids
                          (mod_info, emit (Pool 3 # map Submit_mod project_ids) s1) of
                     (mod_info, s2) \<Rightarrow> (Inr mod_info, s2))
             else (Inr mod_info, s1))"
      unfolding scrape_all_mod_info_def Let_def pre_def ids_def project_ids_of_def ..
    then show ?thesis unfolding pre_eq r1 prod.case sum.case .
  qed
  show ?thesis
  proof (cases "ids1 = []")
    case True
    with unfold run have r: "res = Inr mi1" "s' = s1" by simp_all
    have mz: "misses s ids = []" using True ids1 by simp
    show ?thesis
      unfolding ids_def [symmetric] using e1
      by (simp add: r mi1 mz n1 m1 rr1)
  next
    case False
    define s2 where "s2 = emit (Pool 3 # map Submit_mod ids1) s1"
    obtain mi where c: "collect_mods w ids1 (mi1, s2) = (mi, s')" and res: "res = Inr mi"
      using False unfold run by (cases "collect_mods w ids1 (mi1, s2)") (auto simp: s2_def)
    have d1: "distinct ids1" using dids by (simp add: ids1 misses_def)
    have none: "\<forall>p\<in>set ids1. cached_mod s2 p = None"
      by (simp add: s2_def m1 ids1 misses_def)
    have nr2: "\<forall>p\<in>set ids1. \<not> read_raises s2 p"
      using nr by (simp add: s2_def rr1 ids1 misses_def)
    have disj: "set ids1 \<inter> set (dict_keys mi1) = {}"
      by (auto simp: mi1 ids1 hits_keys misses_def)
    note cc = collect_mods_char [OF c d1 none disj nr2]
    from cc obtain evs2 where e2: "trace s' = trace s2 @ evs2" "submitted evs2 = []"
        "pools evs2 = []" "sleeps evs2 = replicate (length (fetched w ids1)) (1 / 2)"
        "\<forall>p\<in>set ids1. isl (fetch_alone w p) \<longrightarrow>
           Stderr (''Error processing project '' @ str_int p) \<in> set evs2" by blast
    have st: "stored_as w s2 q r = stored_as w s q r" for q r
      by (simp add: stored_as_def s2_def n1 m1)
    have cm: "cached_mod s' q =
            (if q \<in> set (misses s ids)
             then (case fetch_alone w q of Inr r \<Rightarrow> stored_as w s q r | Inl e \<Rightarrow> None)
             else cached_mod s q)" for q
    proof -
      have "cached_mod s' q =
            (if q \<in> set ids1
             then (case fetch_alone w q of Inr r \<Rightarrow> stored_as w s2 q r | Inl e \<Rightarrow> None)
             else cached_mod s2 q)" using cc by blast
      moreover have "cached_mod s2 q = cached_mod s q" by (simp add: s2_def m1)
      ultimately show ?thesis by (simp add: st ids1 split: sum.split)
    qed
    have rr: "read_raises s' q \<longrightarrow> read_raises s q" for q
    proof
      assume "read_raises s' q"
      then have "read_raises s2 q" using cc by blast
      then show "read_raises s q" by (simp add: s2_def rr1)
    qed
    have n: "cache s' = None \<longleftrightarrow> cache s = None" using cc n1 by (simp add: s2_def)
    have mi: "res = Inr (hits s ids @ fetched w (misses s ids))"
      using cc res by (simp add: mi1 ids1)
    have t: "trace s' = trace s @ (evs1 @ (Pool 3 # map Submit_mod ids1) @ evs2)"
      using e2(1) e1(1) by (simp add: s2_def)
    have nz: "misses s ids \<noteq> []" using False ids1 by simp
    show ?thesis
      unfolding ids_def [symmetric]
      using e1 e2 nz
      by (intro conjI allI cm n mi rr
          exI [of _ "evs1 @ (Pool 3 # map Submit_mod ids1) @ evs2"] t)
        (auto simp: ids1)
  qed
qed

lemma new_events_append: "trace s' = trace s @ evs \<Longrightarrow> new_events s s' = evs"
  by (simp add: new_events_def)

lemma hits_dict_keys: "dict_keys (hits s ids) = filter (\<lambda>p. cached_mod s p \<noteq> None) ids"
proof (induction ids)
  case Nil
  show ?case by simp
next
  case (Cons a ids)
  show ?case by (cases "cached_mod s a") (simp_all add: hits_Cons Cons.IH)
qed

lemma fetched_dict_keys:
  "dict_keys (fetched w ids) = filter (\<lambda>p. \<not> isl (fetch_alone w p)) ids"
proof (induction ids)
  case Nil
  show ?case by simp
next
  case (Cons a ids)
  show ?case by (cases "fetch_alone w a") (simp_all add: fetched_Cons Cons.IH)
qed

lemma dict_get_append:
  "dict_get (a @ b) p = (case dict_get a p of Some r \<Rightarrow> Some r | None \<Rightarrow> dict_get b p)"
  by (simp add: dict_get_def map_add_def split: option.split)

lemma dict_get_single: "dict_get [(a, r)] p = (if p = a then Some r else None)"
  and dict_get_Nil: "dict_get [] p = None"
  and dict_get_Cons: "dict_get ((a, r) # d) p = (if p = a then Some r else dict_get d p)"
  by (simp_all add: dict_get_def)

lemma hits_dict_get:
  "dict_get (hits s ids) p = (if p \<in> set ids then cached_mod s p else None)"
proof (induction ids)
  case Nil
  show ?case by (simp add: dict_get_def)
next
  case (Cons a ids)
  show ?case
    by (cases "cached_mod s a")
      (auto simp: hits_Cons dict_get_Cons Cons.IH dict_get_Nil)
qed

lemma fetched_dict_get:
  "dict_get (fetched w ids) p =
     (if p \<in> set ids then (case fetch_alone w p of Inr r \<Rightarrow> Some r | Inl e \<Rightarrow> None)
      else None)"
proof (induction ids)
  case Nil
  show ?case by (simp add: dict_get_def)
next
  case (Cons a ids)
  show ?case
    by (cases "fetch_alone w a")
      (auto simp: fetched_Cons dict_get_Cons Cons.IH dict_get_Nil)
qed

lemma result_dict_get:
  "dict_get (hits s ids @ fetched w (misses s ids)) p =
     (if p \<in> set ids then resolves_to w s p else None)"
  by (auto simp: dict_get_append hits_dict_get fetched_dict_get resolves_to_def misses_def
      split: option.split)

lemma result_dict_keys:
  "dict_keys (hits s ids @ fetched w (misses s ids)) =
     filter (\<lambda>p. cached_mod s p \<noteq> None) ids @
     filter (\<lambda>p. cached_mod s p = None \<and> \<not> isl (fetch_alone w p)) ids"
  by (simp add: hits_dict_keys fetched_dict_keys misses_def conj_commute)

lemma result_distinct:
  "distinct ids \<Longrightarrow> distinct (dict_keys (hits s ids @ fetched w (misses s ids)))"
  unfolding result_dict_keys by auto

lemma resolves_to_None:
  "resolves_to w s p \<noteq> None \<longleftrightarrow>
     cached_mod s p \<noteq> None \<or> (cached_mod s p = None \<and> \<not> isl (fetch_alone w p))"
  by (cases "cached_mod s p"; cases "fetch_alone w p") (simp_all add: resolves_to_def)

lemma result_key_set:
  "set (dict_keys (hits s ids @ fetched w (misses s ids))) =
     {p \<in> set ids. resolves_to w s p \<noteq> None}"
  unfolding result_dict_keys resolves_to_None by auto

lemma length_dict_keys: "length (dict_keys d) = length d"
  by (simp add: dict_keys_def)

lemma try_mod_urls_all_fail:
  "\<forall>url\<in>set urls. candidate_fails w url \<Longrightarrow> fst (try_mod_urls w p urls s) = Inr None"
proof (induction urls arbitrary: s)
  case Nil
  show ?case by simp
next
  case (Cons url urls)
  have f: "candidate_fails w url" and rest: "\<forall>u\<in>set urls. candidate_fails w u"
    using Cons.prems by simp_all
  show ?case
  proof (cases "requests_get w url")
    case (Inl e)
    with f have "e = RequestException" by (simp add: candidate_fails_def)
    with Inl show ?thesis using Cons.IH [OF rest] by (simp add: Let_def)
  next
    case (Inr response)
    with f have "status_code response \<noteq> 200" by (simp add: candidate_fails_def)
    with Inr show ?thesis using Cons.IH [OF rest] by (simp add: Let_def)
  qed
qed

lemma scrape_mod_info_all_fail:
  assumes "fst (lookup_mod p s) = Inr None"
    and "\<forall>url\<in>set (mod_urls p). candidate_fails w url"
  shows "fst (scrape_mod_info w p s) = Inr (placeholder p)"
proof -
  obtain s1 where l: "lookup_mod p s = (Inr None, s1)"
    using assms(1) by (cases "lookup_mod p s") auto
  obtain r s2 where t: "try_mod_urls w p (mod_urls p) s1 = (r, s2)"
    by (cases "try_mod_urls w p (mod_urls p) s1")
  have "r = Inr None" using try_mod_urls_all_fail [OF assms(2), of p s1] t by simp
  with l t show ?thesis by (simp add: scrape_mod_info_def Let_def placeholder_def)
qed

lemma fetch_alone_offline: "fetch_alone world_offline p = Inr (placeholder p)"
  unfolding fetch_alone_def
  by (rule scrape_mod_info_all_fail)
    (simp_all add: lookup_mod_no_cache candidate_fails_def world_offline_def)

lemma cached_mod_fresh: "cached_mod fresh p = None"
  by (simp add: cached_mod_def fresh_def empty_cache_def)

lemma read_raises_fresh: "\<not> read_raises fresh p"
  by (simp add: read_raises_def fresh_def empty_cache_def)





subsection \<open>The claims about the orchestrator and the fetcher\<close>


lemma ids_121: "projectID ` set (get_files manifest_121) = {1, 2}"
  by (auto simp: manifest_121_def get_files_def entry_def)

lemma ids_123: "projectID ` set (get_files manifest_123) = {1, 2, 3}"
  by (auto simp: manifest_123_def get_files_def entry_def)


lemma fetch_alone_two_raises_2: "fetch_alone world_two_raises 2 = Inl OtherException"
  by (simp add: fetch_alone_def scrape_mod_info_def lookup_mod_no_cache mod_urls_def
      world_two_raises_def Let_def)

lemma fetch_alone_two_raises_1: "fetch_alone world_two_raises 1 = Inr (placeholder 1)"
  unfolding fetch_alone_def
  by (rule scrape_mod_info_all_fail)
    (simp_all add: lookup_mod_no_cache candidate_fails_def world_two_raises_def mod_urls_def
      str_int_def str_nat.simps digit_char_def)

lemma fetch_alone_two_raises_3: "fetch_alone world_two_raises 3 = Inr (placeholder 3)"
  unfolding fetch_alone_def
  by (rule scrape_mod_info_all_fail)
    (simp_all add: lookup_mod_no_cache candidate_fails_def world_two_raises_def mod_urls_def
      str_int_def str_nat.simps digit_char_def)

lemma scrape_mod_info_fresh: "fst (scrape_mod_info w p fresh) = fetch_alone w p"
  by (simp add: scrape_mod_info_result read_raises_fresh cached_mod_fresh)

lemma lookup_mod_fresh: "fst (lookup_mod p fresh) = Inr None"
  by (simp add: lookup_mod_result read_raises_fresh cached_mod_fresh)

lemma resolves_to_fetch:
  "\<not> read_raises s p \<Longrightarrow>
   resolves_to w s p = (case fst (scrape_mod_info w p s) of Inr r \<Rightarrow> Some r | Inl e \<Rightarrow> None)"
  by (simp add: resolves_to_def scrape_mod_info_result split: option.split)

text \<open>
  C4.  Let the cache check of the orchestrator complete (the read of no key's cache
  file raises), let \<open>k\<close> be a key of the manifest whose fetch raises, and let
  the fetch of no other key raise.  Then the orchestrator returns a result map and
  writes the error for \<open>k\<close> to standard error; \<open>k\<close> was dispatched; the keys
  of the map are distinct and are all the project identifiers of the manifest but
  \<open>k\<close>, so the map has N - 1 entries; and every other key resolves to the
  record its own fetch returns.  The failure changes no other record: a run from
  the same state in any world \<open>w'\<close> whose fetches agree with this one on the other
  keys of the manifest, for instance a world where the fetch of \<open>k\<close> succeeds,
  returns a map with the same record for every key other than \<open>k\<close>.
\<close>

theorem C4_fault_isolation:
  assumes "scrape_all_mod_info w m s = (res, s')"
    and "k \<in> projectID ` set (get_files m)"
    and "\<forall>p \<in> projectID ` set (get_files m). \<not> isl (fst (lookup_mod p s))"
    and "isl (fst (scrape_mod_info w k s))"
    and "\<forall>p \<in> projectID ` set (get_files m).
           p \<noteq> k \<longrightarrow> \<not> isl (fst (scrape_mod_info w p s))"
    and "scrape_all_mod_info w' m s = (res', s'')"
    and "\<forall>p \<in> projectID ` set (get_files m).
           p \<noteq> k \<longrightarrow> fst (scrape_mod_info w' p s) = fst (scrape_mod_info w p s)"
  shows "\<exists>mod_info mod_info'. res = Inr mod_info \<and> res' = Inr mod_info' \<and>
         Stderr (''Error processing project '' @ str_int k) \<in> set (new_events s s') \<and>
         k \<in> set (submitted (new_events s s')) \<and>
         distinct (dict_keys mod_info) \<and>
         set (dict_keys mod_info) = projectID ` set (get_files m) - {k} \<and>
         length mod_info = card (projectID ` set (get_files m)) - 1 \<and>
         (\<forall>p \<in> projectID ` set (get_files m).
            p \<noteq> k \<longrightarrow>
              (\<exists>r. fst (scrape_mod_info w p s) = Inr r \<and> dict_get mod_info p = Some r)) \<and>
         (\<forall>p. p \<noteq> k \<longrightarrow> dict_get mod_info p = dict_get mod_info' p)"
proof -
  define ids where "ids = project_ids_of m"
  have dids: "distinct ids" and sids: "set ids = projectID ` set (get_files m)"
    by (simp_all add: ids_def project_ids_of_distinct project_ids_of_set)
  have nrr: "\<not> read_raises s p" if "p \<in> set ids" for p
  proof -
    have "\<not> isl (fst (lookup_mod p s))" using assms(3) that sids by blast
    then show ?thesis by (auto simp: lookup_mod_result)
  qed
  have reads: "\<forall>p\<in>set (project_ids_of m). \<not> read_raises s p"
    using nrr by (simp add: ids_def)
  note ch = scrape_all_mod_info_char [OF assms(1) reads, folded ids_def]
  note ch' = scrape_all_mod_info_char [OF assms(6) reads, folded ids_def]
  define mod_info where "mod_info = hits s ids @ fetched w (misses s ids)"
  define mod_info' where "mod_info' = hits s ids @ fetched w' (misses s ids)"
  have mi: "mod_info = hits s ids @ fetched w (misses s ids)" by (simp add: mod_info_def)
  have mi': "mod_info' = hits s ids @ fetched w' (misses s ids)" by (simp add: mod_info'_def)
  have res: "res = Inr mod_info" using ch by (simp add: mod_info_def)
  have res': "res' = Inr mod_info'" using ch' by (simp add: mod_info'_def)
  from ch obtain evs where evs: "trace s' = trace s @ evs" "submitted evs = misses s ids"
    "\<forall>p\<in>set (misses s ids). isl (fetch_alone w p) \<longrightarrow>
       Stderr (''Error processing project '' @ str_int p) \<in> set evs"
    by blast
  have ne: "new_events s s' = evs" using evs(1) by (rule new_events_append)
  have kin: "k \<in> set ids" using assms(2) sids by simp
  have kc: "cached_mod s k = None" and kf: "isl (fetch_alone w k)"
    using assms(4) nrr [OF kin]
    by (auto simp: scrape_mod_info_result split: option.splits)
  have kmiss: "k \<in> set (misses s ids)" using kin kc by (simp add: misses_def)
  have log: "Stderr (''Error processing project '' @ str_int k) \<in> set (new_events s s')"
    using evs(3) kmiss kf ne by blast
  have sub: "k \<in> set (submitted (new_events s s'))" using kmiss by (simp add: ne evs(2))
  have rk: "resolves_to w s k = None"
    using kc kf by (cases "fetch_alone w k") (simp_all add: resolves_to_def)
  have other: "\<exists>r. fst (scrape_mod_info w p s) = Inr r \<and> resolves_to w s p = Some r"
    if pin: "p \<in> set ids" and pk: "p \<noteq> k" for p
  proof -
    have "\<not> isl (fst (scrape_mod_info w p s))" using assms(5) pin pk sids by blast
    then obtain r where r: "fst (scrape_mod_info w p s) = Inr r"
      by (cases "fst (scrape_mod_info w p s)") auto
    then show ?thesis using resolves_to_fetch [OF nrr [OF pin], of w] by simp
  qed
  have ro: "resolves_to w s p \<noteq> None" if "p \<in> set ids" "p \<noteq> k" for p
    using other [OF that] by auto
  have keys: "set (dict_keys mod_info) = set ids - {k}"
    unfolding mi result_key_set using rk ro by auto
  have dist: "distinct (dict_keys mod_info)" unfolding mi by (rule result_distinct [OF dids])
  have "length mod_info = card (set ids - {k})"
    using distinct_card [OF dist] keys by (simp add: length_dict_keys)
  then have len: "length mod_info = card (set ids) - 1" using kin by simp
  have dg: "dict_get mod_info p = (if p \<in> set ids then resolves_to w s p else None)" for p
    by (simp add: mi result_dict_get)
  have dg': "dict_get mod_info' p = (if p \<in> set ids then resolves_to w' s p else None)" for p
    by (simp add: mi' result_dict_get)
  have same: "resolves_to w' s p = resolves_to w s p" if pin: "p \<in> set ids" and pk: "p \<noteq> k" for p
  proof -
    have "fst (scrape_mod_info w' p s) = fst (scrape_mod_info w p s)"
      using assms(7) pin pk sids by blast
    then show ?thesis
      using resolves_to_fetch [OF nrr [OF pin], of w] resolves_to_fetch [OF nrr [OF pin], of w']
      by simp
  qed
  have unchanged: "dict_get mod_info p = dict_get mod_info' p" if "p \<noteq> k" for p
    using same [OF _ that] by (simp add: dg dg')
  have each: "\<exists>r. fst (scrape_mod_info w p s) = Inr r \<and> dict_get mod_info p = Some r"
    if "p \<in> set ids" "p \<noteq> k" for p
    using other [OF that] that by (simp add: dg)
  show ?thesis
    using res res' log sub dist keys len each unchanged
    by (intro exI [of _ mod_info] exI [of _ mod_info']) (simp add: sids [symmetric])
qed

text \<open>
  C4 at a concrete input: projects 1, 2 and 3, an empty cache, and a world in which
  the fetch of project 2 raises; the comparison world is the one in which every
  request is a transport error, where the fetch of project 2 returns the
  placeholder.  The result has the two entries 1 and 3, they are the same in both
  worlds, and the error for project 2 is logged.
\<close>

theorem C4_fault_isolation_witness:
  "2 \<in> projectID ` set (get_files manifest_123) \<and>
   \<not> isl (fst (lookup_mod 1 fresh)) \<and> \<not> isl (fst (lookup_mod 2 fresh)) \<and>
   \<not> isl (fst (lookup_mod 3 fresh)) \<and>
   isl (fst (scrape_mod_info world_two_raises 2 fresh)) \<and>
   \<not> isl (fst (scrape_mod_info world_two_raises 1 fresh)) \<and>
   \<not> isl (fst (scrape_mod_info world_two_raises 3 fresh)) \<and>
   \<not> isl (fst (scrape_mod_info world_offline 2 fresh)) \<and>
   (\<exists>mod_info mod_info'.
      fst (scrape_all_mod_info world_two_raises manifest_123 fresh) = Inr mod_info \<and>
      fst (scrape_all_mod_info world_offline manifest_123 fresh) = Inr mod_info' \<and>
      length mod_info = 2 \<and> set (dict_keys mod_info) = {1, 3} \<and>
      dict_get mod_info 1 = dict_get mod_info' 1 \<and>
      dict_get mod_info 3 = dict_get mod_info' 3) \<and>
   Stderr (''Error processing project '' @ str_int 2)
     \<in> set (new_events fresh (snd (scrape_all_mod_info world_two_raises manifest_123 fresh)))"
proof -
  let ?R = "scrape_all_mod_info world_two_raises manifest_123 fresh"
  let ?R' = "scrape_all_mod_info world_offline manifest_123 fresh"
  have run: "?R = (fst ?R, snd ?R)" and run': "?R' = (fst ?R', snd ?R')" by simp_all
  have k: "2 \<in> projectID ` set (get_files manifest_123)" by (simp add: ids_123)
  have c: "\<forall>p \<in> projectID ` set (get_files manifest_123). \<not> isl (fst (lookup_mod p fresh))"
    by (simp add: lookup_mod_fresh)
  have r: "isl (fst (scrape_mod_info world_two_raises 2 fresh))"
    by (simp add: scrape_mod_info_fresh fetch_alone_two_raises_2)
  have o: "\<forall>p \<in> projectID ` set (get_files manifest_123).
             p \<noteq> 2 \<longrightarrow> \<not> isl (fst (scrape_mod_info world_two_raises p fresh))"
    by (simp add: ids_123 scrape_mod_info_fresh fetch_alone_two_raises_1
        fetch_alone_two_raises_3)
  have a: "\<forall>p \<in> projectID ` set (get_files manifest_123).
             p \<noteq> 2 \<longrightarrow> fst (scrape_mod_info world_offline p fresh) =
                         fst (scrape_mod_info world_two_raises p fresh)"
    by (simp add: ids_123 scrape_mod_info_fresh fetch_alone_two_raises_1
        fetch_alone_two_raises_3 fetch_alone_offline)
  note t = C4_fault_isolation [OF run k c r o run' a]
  have s: "{1, 2, 3} - {2} = {1, 3 :: int}" by auto
  have n: "card {1, 2, 3 :: int} - 1 = 2" by simp
  from t obtain mod_info mod_info' where
    m: "fst ?R = Inr mod_info" "fst ?R' = Inr mod_info'"
      "Stderr (''Error processing project '' @ str_int 2) \<in> set (new_events fresh (snd ?R))"
      "set (dict_keys mod_info) = projectID ` set (get_files manifest_123) - {2}"
      "length mod_info = card (projectID ` set (get_files manifest_123)) - 1"
      "\<forall>p. p \<noteq> 2 \<longrightarrow> dict_get mod_info p = dict_get mod_info' p"
    by blast
  have l: "length mod_info = 2" using m(5) by (simp only: ids_123 n)
  have ks: "set (dict_keys mod_info) = {1, 3}" using m(4) by (simp only: ids_123 s)
  have d1: "dict_get mod_info 1 = dict_get mod_info' 1"
    and d3: "dict_get mod_info 3 = dict_get mod_info' 3" using m(6) by simp_all
  have ex: "\<exists>mod_info mod_info'.
      fst ?R = Inr mod_info \<and> fst ?R' = Inr mod_info' \<and>
      length mod_info = 2 \<and> set (dict_keys mod_info) = {1, 3} \<and>
      dict_get mod_info 1 = dict_get mod_info' 1 \<and>
      dict_get mod_info 3 = dict_get mod_info' 3"
    using m(1,2) l ks d1 d3 by blast
  show ?thesis
    using k r ex m(3)
    by (simp add: lookup_mod_fresh scrape_mod_info_fresh fetch_alone_two_raises_1
        fetch_alone_two_raises_3 fetch_alone_offline)
qed

lemma hits_none: "\<forall>p\<in>set ids. cached_mod s p = None \<Longrightarrow> hits s ids = []"
  by (induction ids) (simp_all add: hits_Cons)

lemma misses_all: "\<forall>p\<in>set ids. cached_mod s p = None \<Longrightarrow> misses s ids = ids"
  by (simp add: misses_def)

lemma misses_none: "\<forall>p\<in>set ids. cached_mod s p \<noteq> None \<Longrightarrow> misses s ids = []"
  by (induction ids) (simp_all add: misses_def)

lemma hits_eq_fetched:
  "\<forall>p\<in>set ids. \<exists>r. fetch_alone w p = Inr r \<and> cached_mod s p = Some r \<Longrightarrow>
   hits s ids = fetched w ids"
proof (induction ids)
  case Nil
  show ?case by simp
next
  case (Cons a ids)
  obtain r where "fetch_alone w a = Inr r" "cached_mod s a = Some r" using Cons.prems by auto
  moreover have "hits s ids = fetched w ids" using Cons by simp
  ultimately show ?case by (simp add: hits_Cons fetched_Cons)
qed

text \<open>
  C6, amended.  Run the orchestrator on a manifest against an empty cache, in a
  world where no cache write for a key of the manifest fails and no fetch of such
  a key raises, and run it again on the same manifest from the state the first run
  left, in any world.  Both runs return a result map, the second run dispatches
  nothing to the fetcher and sends no request, and its result map is the first
  run's.  Every record of the first run, real or placeholder, is in the cache
  after it: for each key of the manifest the cache holds exactly the record the
  result map gives, and the map has one entry per key.
\<close>

theorem C6_warm_cache_round_trip:
  assumes "cache s = Some c" and "mod_files c = (\<lambda>p. None)"
    and "\<forall>p \<in> projectID ` set (get_files m). \<not> mod_write_fails w p"
    and "\<forall>p \<in> projectID ` set (get_files m). \<not> isl (fetch_alone w p)"
    and "scrape_all_mod_info w m s = (res1, s1)"
    and "scrape_all_mod_info w2 m s1 = (res2, s2)"
  shows "\<exists>mod_info1. res1 = Inr mod_info1 \<and> res2 = Inr mod_info1 \<and>
         submitted (new_events s1 s2) = [] \<and>
         http_gets (new_events s1 s2) = [] \<and>
         length mod_info1 = card (projectID ` set (get_files m)) \<and>
         (\<forall>p \<in> projectID ` set (get_files m).
            cached_mod s1 p = dict_get mod_info1 p \<and> dict_get mod_info1 p \<noteq> None)"
proof -
  define ids where "ids = project_ids_of m"
  have dids: "distinct ids" and sids: "set ids = projectID ` set (get_files m)"
    by (simp_all add: ids_def project_ids_of_distinct project_ids_of_set)
  have empty: "cached_mod s p = None" for p using assms(1,2) by (simp add: cached_mod_def)
  have nrr: "\<not> read_raises s p" for p using assms(1,2) by (simp add: read_raises_def)
  have reads: "\<forall>p\<in>set (project_ids_of m). \<not> read_raises s p" using nrr by simp
  have h0: "hits s ids = []" and m0: "misses s ids = ids"
    by (simp_all add: hits_none misses_all empty)
  note ch1 = scrape_all_mod_info_char [OF assms(5) reads, folded ids_def, unfolded h0 m0]
  define mod_info1 where "mod_info1 = fetched w ids"
  have mi1: "mod_info1 = fetched w ids" by (simp add: mod_info1_def)
  have r1: "res1 = Inr mod_info1" using ch1 by (simp add: mod_info1_def)
  have nrr1: "\<not> read_raises s1 p" for p using ch1 nrr by blast
  have reads1: "\<forall>p\<in>set (project_ids_of m). \<not> read_raises s1 p" using nrr1 by simp
  have st: "stored_as w s p r = Some r" if "p \<in> set ids" for p r
  proof -
    have "\<not> mod_write_fails w p" using assms(3) that sids by blast
    then show ?thesis using assms(1) by (simp add: stored_as_def)
  qed
  have nr: "\<not> isl (fetch_alone w p)" if "p \<in> set ids" for p
    using assms(4) that sids by blast
  have c1: "\<exists>r. fetch_alone w p = Inr r \<and> cached_mod s1 p = Some r" if pin: "p \<in> set ids" for p
  proof -
    obtain r where r: "fetch_alone w p = Inr r"
      using nr [OF pin] by (cases "fetch_alone w p") auto
    have "cached_mod s1 p =
        (if p \<in> set ids
         then case fetch_alone w p of Inl e \<Rightarrow> None | Inr r \<Rightarrow> stored_as w s p r
         else cached_mod s p)" using ch1 by blast
    then show ?thesis using that r st [OF that] by simp
  qed
  have h1: "hits s1 ids = fetched w ids" by (rule hits_eq_fetched) (use c1 in blast)
  have m1: "misses s1 ids = []" by (rule misses_none) (use c1 in force)
  note ch2 = scrape_all_mod_info_char [OF assms(6) reads1, folded ids_def, unfolded h1 m1]
  have r2: "res2 = Inr mod_info1" using ch2 mi1 by simp
  from ch2 obtain evs where evs: "trace s2 = trace s1 @ evs" "submitted evs = []"
    "http_gets evs = []" by auto
  have ne: "new_events s1 s2 = evs" using evs(1) by (rule new_events_append)
  have dg: "cached_mod s1 p = dict_get mod_info1 p \<and> dict_get mod_info1 p \<noteq> None"
    if "p \<in> set ids" for p
    using c1 [OF that] that by (auto simp: mi1 fetched_dict_get)
  have "dict_keys mod_info1 = ids"
    unfolding mi1 fetched_dict_keys using nr by (simp add: filter_id_conv)
  then have len: "length mod_info1 = card (set ids)"
    using distinct_card [OF dids] length_dict_keys [of mod_info1] by simp
  show ?thesis
    using r1 r2 dg len
    by (intro exI [of _ mod_info1]) (simp add: ne evs sids [symmetric])
qed

text \<open>
  C6 at a concrete input: two distinct projects, an empty cache, every request a
  transport error and every write successful.  The placeholders of the first run
  are served from the cache in the second.
\<close>

theorem C6_warm_cache_round_trip_witness:
  "cache fresh = Some empty_cache \<and> mod_files empty_cache = (\<lambda>p. None) \<and>
   \<not> mod_write_fails world_offline 1 \<and> \<not> mod_write_fails world_offline 2 \<and>
   \<not> isl (fetch_alone world_offline 1) \<and> \<not> isl (fetch_alone world_offline 2) \<and>
   submitted (new_events (snd (scrape_all_mod_info world_offline manifest_121 fresh))
     (snd (scrape_all_mod_info world_offline manifest_121
        (snd (scrape_all_mod_info world_offline manifest_121 fresh))))) = [] \<and>
   http_gets (new_events (snd (scrape_all_mod_info world_offline manifest_121 fresh))
     (snd (scrape_all_mod_info world_offline manifest_121
        (snd (scrape_all_mod_info world_offline manifest_121 fresh))))) = [] \<and>
   (\<exists>mod_info.
      fst (scrape_all_mod_info world_offline manifest_121 fresh) = Inr mod_info \<and>
      fst (scrape_all_mod_info world_offline manifest_121
            (snd (scrape_all_mod_info world_offline manifest_121 fresh))) = Inr mod_info \<and>
      length mod_info = 2)"
proof -
  let ?R1 = "scrape_all_mod_info world_offline manifest_121 fresh"
  let ?R2 = "scrape_all_mod_info world_offline manifest_121 (snd ?R1)"
  have run1: "?R1 = (fst ?R1, snd ?R1)" and run2: "?R2 = (fst ?R2, snd ?R2)" by simp_all
  have c: "cache fresh = Some empty_cache" by (simp add: fresh_def)
  have e: "mod_files empty_cache = (\<lambda>p. None)" by (simp add: empty_cache_def)
  have wf: "\<forall>p \<in> projectID ` set (get_files manifest_121). \<not> mod_write_fails world_offline p"
    by (simp add: world_offline_def)
  have nr: "\<forall>p \<in> projectID ` set (get_files manifest_121). \<not> isl (fetch_alone world_offline p)"
    by (simp add: fetch_alone_offline)
  note t = C6_warm_cache_round_trip [OF c e wf nr run1 run2]
  have card: "card {1, 2 :: int} = 2" by simp
  from t obtain mod_info where m: "fst ?R1 = Inr mod_info" "fst ?R2 = Inr mod_info"
    "submitted (new_events (snd ?R1) (snd ?R2)) = []"
    "http_gets (new_events (snd ?R1) (snd ?R2)) = []"
    "length mod_info = card (projectID ` set (get_files manifest_121))" by blast
  have l: "length mod_info = 2" using m(5) by (simp only: ids_121 card)
  have ex: "\<exists>mod_info. fst ?R1 = Inr mod_info \<and> fst ?R2 = Inr mod_info \<and> length mod_info = 2"
    using m(1,2) l by blast
  have w1: "\<not> mod_write_fails world_offline 1" and w2: "\<not> mod_write_fails world_offline 2"
    by (simp_all add: world_offline_def)
  show ?thesis
    using c e w1 w2 m(3,4) ex by (simp add: fetch_alone_offline)
qed

lemma project_ids_of_manifest_1: "project_ids_of manifest_1 = [1]"
  by (simp add: project_ids_of_def list_of_set_def manifest_1_def get_files_def entry_def)

lemma fetch_alone_read_only: "fetch_alone world_read_only p = Inr (placeholder p)"
  unfolding fetch_alone_def
  by (rule scrape_mod_info_all_fail)
    (simp_all add: lookup_mod_no_cache candidate_fails_def world_read_only_def)

text \<open>
  C6, as stated: for every key set the second run invokes the fetcher zero times.
  That fails when the first run cannot store its records: with a cache directory
  that cannot be written, the second run dispatches project 1 again.
\<close>

theorem C6_unwritable_cache_counterexample:
  "submitted (new_events (snd (scrape_all_mod_info world_read_only manifest_1 fresh))
     (snd (scrape_all_mod_info world_read_only manifest_1
        (snd (scrape_all_mod_info world_read_only manifest_1 fresh))))) = [1]"
proof -
  let ?R1 = "scrape_all_mod_info world_read_only manifest_1 fresh"
  let ?R2 = "scrape_all_mod_info world_read_only manifest_1 (snd ?R1)"
  have run1: "?R1 = (fst ?R1, snd ?R1)" and run2: "?R2 = (fst ?R2, snd ?R2)" by simp_all
  have reads: "\<forall>p\<in>set (project_ids_of manifest_1). \<not> read_raises fresh p"
    by (simp add: read_raises_fresh)
  note ch1 = scrape_all_mod_info_char [OF run1 reads, unfolded project_ids_of_manifest_1]
  have "\<not> read_raises (snd ?R1) p" for p using ch1 read_raises_fresh by blast
  then have reads1: "\<forall>p\<in>set (project_ids_of manifest_1). \<not> read_raises (snd ?R1) p" by simp
  note ch2 = scrape_all_mod_info_char [OF run2 reads1, unfolded project_ids_of_manifest_1]
  have m1: "misses fresh [1] = [1]" by (simp add: misses_def cached_mod_fresh)
  have "cached_mod (snd ?R1) 1 =
      (if 1 \<in> set (misses fresh [1])
       then case fetch_alone world_read_only 1 of
              Inl e \<Rightarrow> None | Inr r \<Rightarrow> stored_as world_read_only fresh 1 r
       else cached_mod fresh 1)" using ch1 by blast
  moreover have "mod_write_fails world_read_only 1" by (simp add: world_read_only_def)
  then have "stored_as world_read_only fresh 1 r = None" for r
    by (simp add: stored_as_def cached_mod_fresh)
  ultimately have "cached_mod (snd ?R1) 1 = None"
    by (simp add: m1 fetch_alone_read_only)
  then have m2: "misses (snd ?R1) [1] = [1]" by (simp add: misses_def)
  from ch2 obtain evs where "trace (snd ?R2) = trace (snd ?R1) @ evs"
    "submitted evs = misses (snd ?R1) [1]" by blast
  then show ?thesis by (simp add: new_events_append m2)
qed















lemma fetched_offline_1: "fetched world_offline [1] = [(1, placeholder 1)]"
  by (simp add: fetched_def fetch_alone_offline)

text \<open>
  The read of a cache file that is not valid UTF-8 leaves the cache, the fetcher
  and the orchestrator as an exception, in every world; the orchestrator has
  dispatched nothing by then.
\<close>

lemma undecodable_cache_file_escapes:
  "fst (lookup_mod 1 garbled) = Inl UnicodeDecodeError \<and>
   fst (scrape_mod_info w 1 garbled) = Inl UnicodeDecodeError \<and>
   fst (scrape_all_mod_info w manifest_1 garbled) = Inl UnicodeDecodeError \<and>
   submitted (trace (snd (scrape_all_mod_info w manifest_1 garbled))) = []"
proof -
  have l: "lookup_mod 1 garbled =
      (Inl UnicodeDecodeError,
       \<lparr>cache = Some (empty_cache\<lparr>mod_files := (\<lambda>p. if p = 1 then Some Undecodable else None),
                                    mod_hits := 1\<rparr>), trace = []\<rparr>)"
    by (simp add: lookup_mod_def garbled_def get_mod_info_def emit_def empty_cache_def)
  have c: "cache garbled \<noteq> None" by (simp add: garbled_def)
  have i: "list_of_set (map projectID (get_files manifest_1)) = [1]"
    using project_ids_of_manifest_1 by (simp add: project_ids_of_def)
  show ?thesis
    using c by (simp add: l scrape_mod_info_def scrape_all_mod_info_def i)
qed

text \<open>
  C9.  The claim is that the pacing delay and the pool width the orchestrator uses
  are the ones supplied from outside.  \<^verbatim>\<open>main\<close> declares \<^verbatim>\<open>--delay\<close> and
  \<^verbatim>\<open>--max-workers\<close> and never passes them on: its result and its trace do not
  depend on them, and with \<^verbatim>\<open>--delay 2 --max-workers 8\<close> the orchestrator still
  creates a pool of width 3 and pauses for 1/2 after the fetch.
\<close>

theorem C9_pool_and_delay_fixed:
  "main w (a\<lparr>delay := d, max_workers := n\<rparr>) old_manifest new_manifest dir =
     main w a old_manifest new_manifest dir \<and>
   delay args_custom = 2 \<and> max_workers args_custom = 8 \<and>
   pools (trace (snd (main world_offline args_custom manifest_1 manifest_1 empty_cache))) = [3] \<and>
   sleeps (trace (snd (main world_offline args_custom manifest_1 manifest_1 empty_cache)))
     = [1 / 2]"
proof -
  let ?R = "scrape_all_mod_info world_offline manifest_1 uncached"
  have run: "?R = (fst ?R, snd ?R)" by simp
  have reads: "\<forall>p\<in>set (project_ids_of manifest_1). \<not> read_raises uncached p"
    by (simp add: read_raises_uncached)
  have m: "misses uncached [1] = [1]" by (simp add: misses_def cached_mod_def uncached_def)
  note ch = scrape_all_mod_info_char [OF run reads, unfolded project_ids_of_manifest_1 m]
  from ch obtain mi where mi: "fst ?R = Inr mi" by blast
  from ch obtain evs where evs: "trace (snd ?R) = trace uncached @ evs"
    "pools evs = (if [1::int] = [] then [] else [3])"
    "sleeps evs = replicate (length (fetched world_offline [1])) (1 / 2)" by blast
  have t: "trace (snd ?R) = evs" using evs(1) by (simp add: uncached_def)
  have p: "pools (trace (snd ?R)) = [3]" using evs(2) by (simp add: t)
  have s: "sleeps (trace (snd ?R)) = [1 / 2]" using evs(3) by (simp add: t fetched_offline_1)
  have R: "scrape_all_mod_info world_offline manifest_1 \<lparr>cache = None, trace = []\<rparr> =
      (Inr mi, snd ?R)"
    using mi run by (simp add: uncached_def)
  have main_custom:
    "snd (main world_offline args_custom manifest_1 manifest_1 empty_cache) = snd ?R"
    by (simp add: main_def args_custom_def Let_def R)
  have i: "main w (a\<lparr>delay := d, max_workers := n\<rparr>) old_manifest new_manifest dir =
     main w a old_manifest new_manifest dir"
    by (simp add: main_def Let_def split: prod.split sum.split)
  have d: "delay args_custom = 2" and mw: "max_workers args_custom = 8"
    by (simp_all add: args_custom_def)
  show ?thesis using i p s d mw by (simp add: main_custom)
qed

end
